theory Spec2Isabelle
  imports Main
begin

section \<open>Regular expressions of the credential validator\<close>

text \<open>
  \<^verbatim>\<open>validateCookies\<close> tests its three fields with regular expression literals. They use
  character classes, concatenation, alternation, \<^verbatim>\<open>*\<close>, \<^verbatim>\<open>+\<close> and \<^verbatim>\<open>{n}\<close> only, and
  each literal is anchored by \<^verbatim>\<open>^\<close> and \<^verbatim>\<open>$\<close> with no flag: \<^verbatim>\<open>String.prototype.match\<close>
  is then truthy exactly when the whole string is a word of the expression. A character
  class is the list of its ranges (a single character is the range from it to itself).
  Matching is by Brzozowski derivatives; \<open>Nul\<close> (no word) exists for the derivatives only.
\<close>

datatype rexp =
    Nul
  | Eps
  | Cls "(char \<times> char) list"
  | Seq rexp rexp
  | Alt rexp rexp
  | Star rexp

definition in_class :: "(char \<times> char) list \<Rightarrow> char \<Rightarrow> bool" where
  "in_class rs c =
     list_ex (\<lambda>(lo, hi). (of_char lo :: nat) \<le> of_char c \<and> (of_char c :: nat) \<le> of_char hi) rs"

fun nullable :: "rexp \<Rightarrow> bool" where
  "nullable Nul = False"
| "nullable Eps = True"
| "nullable (Cls rs) = False"
| "nullable (Seq r s) = (nullable r \<and> nullable s)"
| "nullable (Alt r s) = (nullable r \<or> nullable s)"
| "nullable (Star r) = True"

fun der :: "char \<Rightarrow> rexp \<Rightarrow> rexp" where
  "der c Nul = Nul"
| "der c Eps = Nul"
| "der c (Cls rs) = (if in_class rs c then Eps else Nul)"
| "der c (Seq r s) =
     (if nullable r then Alt (Seq (der c r) s) (der c s) else Seq (der c r) s)"
| "der c (Alt r s) = Alt (der c r) (der c s)"
| "der c (Star r) = Seq (der c r) (Star r)"

fun matches :: "rexp \<Rightarrow> string \<Rightarrow> bool" where
  "matches r [] = nullable r"
| "matches r (c # cs) = matches (der c r) cs"

text \<open>\<^verbatim>\<open>r{n}\<close>, \<^verbatim>\<open>r+\<close>, a literal character, and a sequence of pieces.\<close>

fun rep :: "nat \<Rightarrow> rexp \<Rightarrow> rexp" where
  "rep 0 r = Eps"
| "rep (Suc n) r = Seq r (rep n r)"

definition plus1 :: "rexp \<Rightarrow> rexp" where
  "plus1 r = Seq r (Star r)"

definition chr :: "char \<Rightarrow> rexp" where
  "chr c = Cls [(c, c)]"

definition seqs :: "rexp list \<Rightarrow> rexp" where
  "seqs rs = foldr Seq rs Eps"

text \<open>The words of an expression, used to reason about \<open>matches\<close>.\<close>

definition conc :: "string set \<Rightarrow> string set \<Rightarrow> string set" where
  "conc A B = {u @ v | u v. u \<in> A \<and> v \<in> B}"

inductive_set star :: "string set \<Rightarrow> string set" for A :: "string set" where
  star_nil: "[] \<in> star A"
| star_app: "u \<in> A \<Longrightarrow> v \<in> star A \<Longrightarrow> u @ v \<in> star A"

fun lang :: "rexp \<Rightarrow> string set" where
  "lang Nul = {}"
| "lang Eps = {[]}"
| "lang (Cls rs) = {[c] | c. in_class rs c}"
| "lang (Seq r s) = conc (lang r) (lang s)"
| "lang (Alt r s) = lang r \<union> lang s"
| "lang (Star r) = star (lang r)"

text \<open>\<^verbatim>\<open>[0-9a-f]\<close>, \<^verbatim>\<open>[89ab]\<close>, \<^verbatim>\<open>[\w-]\<close>, \<^verbatim>\<open>[a-zA-Z0-9]\<close> and \<^verbatim>\<open>[a-zA-Z0-9\-]\<close>.\<close>

definition hex_lower :: "(char \<times> char) list" where
  "hex_lower = [(CHR ''0'', CHR ''9''), (CHR ''a'', CHR ''f'')]"

definition variant_89ab :: "(char \<times> char) list" where
  "variant_89ab =
     [(CHR ''8'', CHR ''8''), (CHR ''9'', CHR ''9''), (CHR ''a'', CHR ''a''), (CHR ''b'', CHR ''b'')]"

definition word_or_dash :: "(char \<times> char) list" where
  "word_or_dash =
     [(CHR ''A'', CHR ''Z''), (CHR ''a'', CHR ''z''), (CHR ''0'', CHR ''9''),
      (CHR ''_'', CHR ''_''), (CHR ''-'', CHR ''-'')]"

definition alnum :: "(char \<times> char) list" where
  "alnum = [(CHR ''a'', CHR ''z''), (CHR ''A'', CHR ''Z''), (CHR ''0'', CHR ''9'')]"

definition alnum_dash :: "(char \<times> char) list" where
  "alnum_dash = alnum @ [(CHR ''-'', CHR ''-'')]"

text \<open>
  \<^verbatim>\<open>/^[0-9a-f]{8}-[0-9a-f]{4}-4[0-9a-f]{3}-[89ab][0-9a-f]{3}-[0-9a-f]{12}$/\<close>
\<close>

definition uuidRegEx :: rexp where
  "uuidRegEx =
     seqs [rep 8 (Cls hex_lower), chr CHR ''-'',
           rep 4 (Cls hex_lower), chr CHR ''-'',
           chr CHR ''4'', rep 3 (Cls hex_lower), chr CHR ''-'',
           Cls variant_89ab, rep 3 (Cls hex_lower), chr CHR ''-'',
           rep 12 (Cls hex_lower)]"

text \<open>\<^verbatim>\<open>/^[\w-]+\.[\w-]+\.[\w-]+$/\<close>\<close>

definition jwtRegEx :: rexp where
  "jwtRegEx =
     seqs [plus1 (Cls word_or_dash), chr CHR ''.'',
           plus1 (Cls word_or_dash), chr CHR ''.'',
           plus1 (Cls word_or_dash)]"

text \<open>
  \<^verbatim>\<open>/^(([a-zA-Z0-9]|[a-zA-Z0-9][a-zA-Z0-9\-]*[a-zA-Z0-9])\.)*([A-Za-z0-9]|[A-Za-z0-9][A-Za-z0-9\-]*[A-Za-z0-9])$/\<close>
\<close>

definition hostname_label :: rexp where
  "hostname_label =
     Alt (Cls alnum) (seqs [Cls alnum, Star (Cls alnum_dash), Cls alnum])"

definition hostnameRegEx :: rexp where
  "hostnameRegEx = Seq (Star (Seq hostname_label (chr CHR ''.''))) hostname_label"

section \<open>Data model\<close>

text \<open>
  The \<^verbatim>\<open>Credentials\<close> type of \<^verbatim>\<open>utils/credentials.ts\<close>; an optional property is an
  \<open>option\<close>, and \<^verbatim>\<open>JSON.stringify\<close> leaves out a property that is \<^verbatim>\<open>undefined\<close>.
\<close>

record Credentials =
  domain :: string
  xsrf :: string
  accessToken :: string
  gridId :: "string option"
  retoolDBUuid :: "string option"
  hasConnectionString :: "bool option"
  firstName :: "string option"
  lastName :: "string option"
  email :: "string option"

text \<open>
  \<^verbatim>\<open>utils/apps.ts\<close> and \<^verbatim>\<open>commands/scaffold.ts\<close> also read \<^verbatim>\<open>credentials.origin\<close>, a
  property of the revision of the type they were written against.
\<close>

record SessionCredentials = Credentials +
  origin :: string

record App =
  app_uuid :: string
  app_name :: string
  app_folderId :: int
  app_id :: string
  app_protected :: bool
  app_updatedAt :: string
  app_createdAt :: string
  app_isGlobalWidget :: bool

record Folder =
  folder_id :: int
  folder_parentFolderId :: int
  folder_name :: string
  folder_systemFolder :: bool
  folder_createdAt :: string
  folder_updatedAt :: string
  folder_folderType :: string
  folder_accessLevel :: string

text \<open>An entry of \<^verbatim>\<open>/api/resources\<close>, and the \<^verbatim>\<open>gridInfo\<close> of a grid.\<close>

record Resource =
  res_displayName :: string
  res_name :: string

record GridInfo =
  grid_id :: "string option"
  grid_connectionString :: "string option"

record TableInfo =
  tbl_fields :: "string list"

text \<open>
  The \<^verbatim>\<open>data\<close> of a response, with the properties the code reads, and a response, whose
  \<^verbatim>\<open>data\<close> may be missing (the code reads it through \<^verbatim>\<open>?.\<close>).
\<close>

record ResponseData =
  pages :: "App list option"
  folders :: "Folder list option"
  resources :: "Resource list option"
  gridInfo :: "GridInfo option"
  pageUuid :: "string option"
  tableInfo :: "TableInfo option"

record Response =
  data :: "ResponseData option"

datatype OutputFormat = Default | Json

datatype body =
    AutogeneratePage string "string option" string string
  | DeletePage string
  | BulkInsertIntoTable string string

datatype printed = Text string | Object "ResponseData option" | WriteError

text \<open>
  A step of the scaffold command: a function the handler calls, with the arguments that
  tell the calls apart. For \<open>CreateAppForTable\<close>, \<open>DeleteApp\<close> and \<open>InsertSampleData\<close> the
  body is modelled below. \<open>InsertSampleData\<close> and \<open>LogDAU\<close> are launched with \<^verbatim>\<open>void\<close> and
  run beside the pipeline, which never waits for them: their launch is in the trace of the
  pipeline, what they do is in no order with it. The others are functions of
  \<^verbatim>\<open>utils/table\<close>, \<^verbatim>\<open>utils/workflows\<close>, \<^verbatim>\<open>utils/telemetry\<close> and \<^verbatim>\<open>utils/credentials\<close>, of
  which the invocation and the outcome are modelled.
\<close>

datatype call =
    GetAndVerifyCredentialsWithRetoolDB
  | LogDAU
  | CollectTableName
  | CollectColumnNames
  | CreateTable string "string list"
  | CreateTableFromCSV string
  | InsertSampleData string
  | GenerateDataWithGPT "string list"
  | GenerateCRUDWorkflow string
  | CreateAppForTable string string string
  | DeleteTable string bool
  | DeleteWorkflow string bool
  | DeleteApp string bool

text \<open>
  What the process does that can be observed, in order. \<open>Call\<close> marks the invocation of an
  awaited step, \<open>Detached\<close> one launched with \<^verbatim>\<open>void\<close> and never awaited.
\<close>

datatype event =
    ConsoleLog printed
  | ConsoleError printed
  | SpinnerStart string
  | SpinnerStop
  | Prompt string
  | HttpGet string
  | HttpPost string body
  | WriteCredentials Credentials
  | Call call
  | Detached call

text \<open>
  How a call ends: it returns, the process exits (\<^verbatim>\<open>process.exit(n)\<close>), or an exception
  is thrown (a rejected promise, when awaited).
\<close>

datatype 'a outcome = Returned 'a | Exited int | Threw

record world =
  disk :: "Credentials option"
  events :: "event list"

type_synonym 'a proc = "world \<Rightarrow> 'a outcome \<times> world"

definition ret :: "'a \<Rightarrow> 'a proc" where
  "ret x = (\<lambda>w. (Returned x, w))"

definition exit :: "int \<Rightarrow> 'a proc" where
  "exit n = (\<lambda>w. (Exited n, w))"

definition throw :: "'a proc" where
  "throw = (\<lambda>w. (Threw, w))"

definition await :: "'a outcome \<Rightarrow> 'a proc" where
  "await r = (\<lambda>w. (r, w))"

definition emit :: "event \<Rightarrow> unit proc" where
  "emit e = (\<lambda>w. (Returned (), w\<lparr>events := events w @ [e]\<rparr>))"

definition bindp :: "'a proc \<Rightarrow> ('a \<Rightarrow> 'b proc) \<Rightarrow> 'b proc" where
  "bindp m k = (\<lambda>w. case m w of
       (Returned x, w') \<Rightarrow> k x w'
     | (Exited n, w') \<Rightarrow> (Exited n, w')
     | (Threw, w') \<Rightarrow> (Threw, w'))"

definition thenp :: "'a proc \<Rightarrow> 'b proc \<Rightarrow> 'b proc" where
  "thenp m k = bindp m (\<lambda>_. k)"

text \<open>
  The collaborators outside the source at hand, as parameters: the user's answer to a
  confirmation prompt (by its message), the network (\<^verbatim>\<open>utils/networking\<close>), whether the
  credentials file can be written, \<^verbatim>\<open>chalk.bold\<close>, and the steps of \<^verbatim>\<open>utils/table\<close>,
  \<^verbatim>\<open>utils/workflows\<close>, \<^verbatim>\<open>utils/credentials\<close>. The last one is the scheduler: \<open>strike\<close> is
  the number of awaited calls of the pipeline that complete, after a detached call was
  launched, before the failure of that detached call (if it fails) ends the process.
\<close>

record env =
  confirm :: "string \<Rightarrow> bool"
  getRequest :: "string \<Rightarrow> Response option outcome"
  postRequest :: "string \<Rightarrow> body \<Rightarrow> Response option outcome"
  writable :: bool
  chalk_bold :: "string \<Rightarrow> string"
  getAndVerifyCredentialsWithRetoolDB :: "SessionCredentials outcome"
  collectTableName :: "string outcome"
  collectColumnNames :: "string list outcome"
  createTable :: "string \<Rightarrow> string list \<Rightarrow> unit outcome"
  createTableFromCSV :: "string \<Rightarrow> (string \<times> string list) outcome"
  generateCRUDWorkflow :: "string \<Rightarrow> unit outcome"
  deleteTable :: "string \<Rightarrow> unit outcome"
  deleteWorkflow :: "string \<Rightarrow> unit outcome"
  generateDataWithGPT :: "string list \<Rightarrow> string option outcome"
  strike :: nat

text \<open>The characters outside ASCII of the messages, as UTF-8.\<close>

definition emoji_sweat :: string where
  "emoji_sweat = [CHR 0xF0, CHR 0x9F, CHR 0x98, CHR 0x93]"

definition emoji_party :: string where
  "emoji_party = [CHR 0xF0, CHR 0x9F, CHR 0x8E, CHR 0x89]"

definition emoji_bin :: string where
  "emoji_bin = [CHR 0xF0, CHR 0x9F, CHR 0x97, CHR 0x91, CHR 0xEF, CHR 0xB8, CHR 0x8F]"

definition newline :: string where
  "newline = [CHR 0x0A]"

section \<open>utils/credentials.ts\<close>

datatype field = XsrfField | AccessTokenField | DomainField

definition invalid_message :: "field \<Rightarrow> string" where
  "invalid_message fld = (case fld of
       XsrfField \<Rightarrow> ''Error: XSRF token is invalid.''
     | AccessTokenField \<Rightarrow> ''Error: Access token is invalid.''
     | DomainField \<Rightarrow> ''Error: Domain is invalid.'')"

definition validateCookies :: "'a Credentials_scheme \<Rightarrow> unit proc" where
  "validateCookies credentials =
     (if \<not> matches uuidRegEx (xsrf credentials) then
        thenp (emit (ConsoleLog (Text (invalid_message XsrfField)))) (exit 1)
      else if \<not> matches jwtRegEx (accessToken credentials) then
        thenp (emit (ConsoleLog (Text (invalid_message AccessTokenField)))) (exit 1)
      else if \<not> matches hostnameRegEx (domain credentials) then
        thenp (emit (ConsoleLog (Text (invalid_message DomainField)))) (exit 1)
      else ret ())"

definition persistCredentials :: "env \<Rightarrow> Credentials \<Rightarrow> unit proc" where
  "persistCredentials e credentials =
     (if writable e then
        (\<lambda>w. (Returned (),
               w\<lparr>disk := Some credentials,
                 events := events w @ [WriteCredentials credentials]\<rparr>))
      else
        thenp (emit (ConsoleError WriteError)) (exit 1))"

definition getCredentials :: "world \<Rightarrow> Credentials option" where
  "getCredentials w = disk w"

text \<open>The answers of the login prompt are validated, then persisted.\<close>

definition askForCookies_then :: "env \<Rightarrow> Credentials \<Rightarrow> unit proc" where
  "askForCookies_then e answer =
     thenp (validateCookies answer)
       (thenp (persistCredentials e answer)
          (emit (ConsoleLog (Text ''Successfully saved credentials.''))))"

text \<open>
  \<^verbatim>\<open>resources?.data?.resources?.filter(...)\<close> is \<^verbatim>\<open>undefined\<close> as soon as one link is;
  \<^verbatim>\<open>undefined < 1\<close> is false, and \<^verbatim>\<open>retoolDBs[0].name\<close> then throws a TypeError.
\<close>

definition retool_dbs :: "Response option \<Rightarrow> Resource list option" where
  "retool_dbs rsp =
     map_option (filter (\<lambda>resource. res_displayName resource = ''retool_db''))
       (Option.bind (Option.bind rsp data) resources)"

definition grid_info :: "Response option \<Rightarrow> GridInfo option" where
  "grid_info rsp = Option.bind (Option.bind rsp data) gridInfo"

definition has_connection_string :: "Response option \<Rightarrow> bool" where
  "has_connection_string rsp =
     (case Option.bind (grid_info rsp) grid_connectionString of
        None \<Rightarrow> False
      | Some s \<Rightarrow> length s > 0)"

definition http_get :: "env \<Rightarrow> string \<Rightarrow> Response option proc" where
  "http_get e url = thenp (emit (HttpGet url)) (await (getRequest e url))"

definition http_post :: "env \<Rightarrow> string \<Rightarrow> body \<Rightarrow> Response option proc" where
  "http_post e url b = thenp (emit (HttpPost url b)) (await (postRequest e url b))"

definition fetchDBCredentials :: "env \<Rightarrow> unit proc" where
  "fetchDBCredentials e = (\<lambda>w0.
     (case getCredentials w0 of
        None \<Rightarrow> ret ()
      | Some credentials \<Rightarrow>
          bindp (http_get e (''https://'' @ domain credentials @ ''/api/resources''))
            (\<lambda>rsp.
               (case retool_dbs rsp of
                  None \<Rightarrow> throw
                | Some [] \<Rightarrow>
                    emit (ConsoleLog (Text (newline
                      @ ''Error: Retool DB not found. Create one at https://''
                      @ domain credentials @ ''/resources'')))
                | Some (db # _) \<Rightarrow>
                    bindp (http_get e (''https://'' @ domain credentials
                             @ ''/api/grid/retooldb/'' @ res_name db @ ''?env=production''))
                      (\<lambda>grid.
                         persistCredentials e
                           (credentials\<lparr>retoolDBUuid := Some (res_name db),
                              gridId := Option.bind (grid_info grid) grid_id,
                              hasConnectionString := Some (has_connection_string grid)\<rparr>))))) w0)"

section \<open>utils/apps.ts\<close>

text \<open>
  \<^verbatim>\<open>const { data: result } = await postRequest(...)\<close> throws a TypeError when the response
  is \<^verbatim>\<open>undefined\<close>; when the response has no \<^verbatim>\<open>data\<close>, the result is \<^verbatim>\<open>undefined\<close>.
\<close>

definition response_of :: "Response option \<Rightarrow> Response proc" where
  "response_of rsp = (case rsp of None \<Rightarrow> throw | Some r \<Rightarrow> ret r)"

definition falsy :: "string option \<Rightarrow> bool" where
  "falsy s = (case s of None \<Rightarrow> True | Some t \<Rightarrow> t = [])"

definition createAppForTable ::
  "env \<Rightarrow> string \<Rightarrow> string \<Rightarrow> string \<Rightarrow> SessionCredentials \<Rightarrow> OutputFormat \<Rightarrow> unit proc" where
  "createAppForTable e appName tableName columnName credentials format =
     thenp (emit (SpinnerStart ''Creating App''))
    (bindp (http_post e (origin credentials @ ''/api/pages/autogeneratePage'')
              (AutogeneratePage appName (retoolDBUuid credentials) tableName columnName))
      (\<lambda>rsp. bindp (response_of rsp)
      (\<lambda>r.
         thenp (emit SpinnerStop)
           (case data r of
              None \<Rightarrow> throw
            | Some createAppResult \<Rightarrow>
                if falsy (pageUuid createAppResult) then
                  thenp (emit (ConsoleError (Text ''Error creating app.'')))
                 (thenp (emit (ConsoleError (Object (Some createAppResult))))
                    (exit 1))
                else
                  (case format of
                     Json \<Rightarrow> emit (ConsoleLog (Object (Some createAppResult)))
                   | Default \<Rightarrow>
                       thenp (emit (ConsoleLog (Text (''Successfully created an App. ''
                                @ emoji_party))))
                         (emit (ConsoleLog (Text (chalk_bold e ''View in browser:'' @ '' ''
                            @ origin credentials @ ''/editor/''
                            @ the (pageUuid createAppResult))))))))))"

definition trash_folder_id :: "Folder list option \<Rightarrow> int option" where
  "trash_folder_id fs =
     map_option folder_id
       (Option.bind fs (find (\<lambda>folder. folder_name folder = ''archive'' \<and> folder_systemFolder folder)))"

definition response_pages :: "Response option \<Rightarrow> App list option" where
  "response_pages rsp = Option.bind (Option.bind rsp data) pages"

definition response_folders :: "Response option \<Rightarrow> Folder list option" where
  "response_folders rsp = Option.bind (Option.bind rsp data) folders"

definition apps_outside_trash :: "Response option \<Rightarrow> App list option" where
  "apps_outside_trash rsp =
     map_option
       (filter (\<lambda>app. Some (app_folderId app) \<noteq> trash_folder_id (response_folders rsp)))
       (response_pages rsp)"

definition getAppsAndFolders ::
  "env \<Rightarrow> SessionCredentials \<Rightarrow> (App list option \<times> Folder list option) proc" where
  "getAppsAndFolders e credentials =
     thenp (emit (SpinnerStart ''Fetching all apps.''))
    (bindp (http_get e (origin credentials @ ''/api/pages?mobileAppsOnly=false''))
      (\<lambda>fetchAppsResponse.
         thenp (emit SpinnerStop)
           (ret (apps_outside_trash fetchAppsResponse, response_folders fetchAppsResponse))))"

definition not_unique_message :: "string \<Rightarrow> string" where
  "not_unique_message appName = ''0 or >1 Apps named '' @ appName @ '' found. '' @ emoji_sweat"

definition deleteApp ::
  "env \<Rightarrow> string \<Rightarrow> SessionCredentials \<Rightarrow> bool \<Rightarrow> OutputFormat \<Rightarrow> unit proc" where
  "deleteApp e appName credentials confirmDeletion outputFormat =
     thenp (if confirmDeletion then
              thenp (emit (Prompt (''Are you sure you want to delete '' @ appName @ ''?'')))
                (if \<not> confirm e (''Are you sure you want to delete '' @ appName @ ''?'')
                 then exit 0 else ret ())
            else ret ())
    (bindp (getAppsAndFolders e credentials)
      (\<lambda>(apps, _).
         (case map_option (filter (\<lambda>app. app_name app = appName)) apps of
            Some [app] \<Rightarrow>
              thenp (emit (SpinnerStart ''Deleting App''))
             (bindp (http_post e (origin credentials @ ''/api/folders/deletePage'')
                       (DeletePage (app_id app)))
               (\<lambda>rsp. bindp (response_of rsp)
               (\<lambda>r.
                  thenp (emit SpinnerStop)
                    (case outputFormat of
                       Json \<Rightarrow> emit (ConsoleLog (Object (data r)))
                     | Default \<Rightarrow>
                         emit (ConsoleLog (Text (''Deleted '' @ appName @ '' app. '' @ emoji_bin)))))))
          | _ \<Rightarrow>
              thenp (emit (ConsoleError (Text (not_unique_message appName))))
                (exit 1))))"

section \<open>commands/scaffold.ts\<close>

text \<open>
  The handler has three branches, tried in this order: \<^verbatim>\<open>argv.delete\<close> (here
  \<open>scaffold_delete\<close>), \<^verbatim>\<open>argv.f\<close> (the loop \<open>fromCSV\<close> over the files) and the plain creation
  (\<open>scaffold_create\<close>). The output format is the constant \<^verbatim>\<open>"default"\<close>.
\<close>

text \<open>
  The parsed command line is of type \<^verbatim>\<open>any\<close>. The handler reads \<^verbatim>\<open>delete\<close>, \<^verbatim>\<open>f\<close>,
  \<^verbatim>\<open>name\<close>, \<^verbatim>\<open>columns\<close> and \<^verbatim>\<open>no-workflow\<close>; \<open>argv_force\<close> stands for a \<^verbatim>\<open>force\<close>
  property, which the builder of the command does not declare.
\<close>

record argv =
  argv_name :: "string option"
  argv_columns :: "string list option"
  argv_delete :: "string option"
  argv_f :: "string list option"
  argv_no_workflow :: bool
  argv_force :: bool

definition step :: "call \<Rightarrow> 'a outcome \<Rightarrow> 'a proc" where
  "step c r = thenp (emit (Call c)) (await r)"

definition delete_prompt :: "string \<Rightarrow> string" where
  "delete_prompt tableName =
     ''Are you sure you want to delete '' @ tableName @ '' table, CRUD workflow and app?''"

definition searchColumnName :: "string list \<Rightarrow> string" where
  "searchColumnName colNames = (if length colNames > 0 then colNames ! 0 else ''id'')"

text \<open>
  \<^verbatim>\<open>insertSampleData\<close>: a property of the credentials that is \<^verbatim>\<open>undefined\<close> reads
  \<^verbatim>\<open>undefined\<close> in a template string; \<^verbatim>\<open>infoRes.data\<close> and \<^verbatim>\<open>retoolDBInfo.tableInfo\<close>
  throw a TypeError on \<^verbatim>\<open>undefined\<close>, and so does taking \<^verbatim>\<open>fields\<close> out of a missing
  \<^verbatim>\<open>tableInfo\<close>; nothing is inserted when no data was generated.
\<close>

definition template :: "string option \<Rightarrow> string" where
  "template v = (case v of None \<Rightarrow> ''undefined'' | Some t \<Rightarrow> t)"

definition insertSampleData :: "env \<Rightarrow> string \<Rightarrow> SessionCredentials \<Rightarrow> unit proc" where
  "insertSampleData e tableName credentials =
     bindp (http_get e (origin credentials @ ''/api/grid/'' @ template (gridId credentials)
              @ ''/table/'' @ tableName @ ''/info''))
       (\<lambda>infoRes. bindp (response_of infoRes)
       (\<lambda>r. case Option.bind (data r) tableInfo of
          None \<Rightarrow> throw
        | Some info \<Rightarrow>
            bindp (step (GenerateDataWithGPT (tbl_fields info))
                     (generateDataWithGPT e (tbl_fields info)))
              (\<lambda>generatedData. case generatedData of
                 None \<Rightarrow> ret ()
               | Some additions \<Rightarrow>
                   bindp (http_post e (origin credentials @ ''/api/grid/''
                            @ template (gridId credentials) @ ''/action'')
                            (BulkInsertIntoTable tableName additions))
                     (\<lambda>_. ret ()))))"

text \<open>
  A call launched with \<^verbatim>\<open>void\<close> runs beside the pipeline, in a trace of its own. When it
  returns nothing follows. When it throws, its promise is rejected and nothing handles
  the rejection: Node then ends the process with code 1; when the process exits in it, the
  process ends with that code. \<open>detached\<close> is the code the process ends with, if it does.
\<close>

definition detached :: "unit proc \<Rightarrow> int option" where
  "detached m = (case fst (m \<lparr>disk = None, events = []\<rparr>) of
       Returned _ \<Rightarrow> None
     | Exited n \<Rightarrow> Some n
     | Threw \<Rightarrow> Some 1)"

text \<open>
  The failure of the detached call takes effect while the pipeline waits. \<open>struck doom now r\<close>
  is how an awaited call of the pipeline ends: as \<open>r\<close>, its own outcome, unless the
  detached call ends the process during it. \<open>outlived doom m\<close> is the run of the rest of the
  pipeline: when it returns and the detached call fails, the process ends with the code of
  that failure.
\<close>

definition struck :: "int option \<Rightarrow> bool \<Rightarrow> 'a outcome \<Rightarrow> 'a outcome" where
  "struck doom now r = (case doom of
       None \<Rightarrow> r
     | Some code \<Rightarrow> if now then Exited code else r)"

definition outlived :: "int option \<Rightarrow> 'a proc \<Rightarrow> 'a proc" where
  "outlived doom m = (\<lambda>w. case m w of
       (Returned x, w') \<Rightarrow> (case doom of None \<Rightarrow> (Returned x, w') | Some code \<Rightarrow> (Exited code, w'))
     | (Exited n, w') \<Rightarrow> (Exited n, w')
     | (Threw, w') \<Rightarrow> (Threw, w'))"

fun fromCSV :: "env \<Rightarrow> argv \<Rightarrow> SessionCredentials \<Rightarrow> string list \<Rightarrow> unit proc" where
  "fromCSV e a credentials [] = ret ()"
| "fromCSV e a credentials (csvFileName # rest) =
     bindp (step (CreateTableFromCSV csvFileName) (createTableFromCSV e csvFileName))
       (\<lambda>(tableName, colNames).
          thenp (if \<not> argv_no_workflow a then
                   thenp (emit (ConsoleLog (Text newline)))
                     (step (GenerateCRUDWorkflow tableName) (generateCRUDWorkflow e tableName))
                 else ret ())
         (thenp (emit (ConsoleLog (Text newline)))
         (thenp (emit (Call (CreateAppForTable (tableName @ '' App'') tableName
                               (searchColumnName colNames))))
         (thenp (createAppForTable e (tableName @ '' App'') tableName
                   (searchColumnName colNames) credentials Default)
         (thenp (emit (ConsoleLog (Text [])))
            (fromCSV e a credentials rest))))))"

definition scaffold_delete :: "env \<Rightarrow> SessionCredentials \<Rightarrow> string \<Rightarrow> unit proc" where
  "scaffold_delete e credentials tableName =
     thenp (emit (Prompt (delete_prompt tableName)))
    (thenp (if \<not> confirm e (delete_prompt tableName) then exit 0 else ret ())
    (thenp (step (DeleteTable tableName False) (deleteTable e tableName))
    (thenp (step (DeleteWorkflow (tableName @ '' CRUD Workflow'') False)
              (deleteWorkflow e (tableName @ '' CRUD Workflow'')))
    (thenp (emit (Call (DeleteApp (tableName @ '' App'') False)))
       (deleteApp e (tableName @ '' App'') credentials False Default)))))"

text \<open>
  In the plain creation the pipeline awaits at most two calls after the launch of
  \<^verbatim>\<open>insertSampleData\<close>: \<^verbatim>\<open>generateCRUDWorkflow\<close>, unless the workflow is left out, and the
  request of \<^verbatim>\<open>createAppForTable\<close>.
\<close>

definition scaffold_create :: "env \<Rightarrow> argv \<Rightarrow> SessionCredentials \<Rightarrow> unit proc" where
  "scaffold_create e a credentials =
     bindp (case argv_name a of
              None \<Rightarrow> step CollectTableName (collectTableName e)
            | Some n \<Rightarrow> if length n = 0 then step CollectTableName (collectTableName e) else ret n)
       (\<lambda>tableName.
     bindp (case argv_columns a of
              None \<Rightarrow> step CollectColumnNames (collectColumnNames e)
            | Some cs \<Rightarrow> if length cs = 0 then step CollectColumnNames (collectColumnNames e) else ret cs)
       (\<lambda>colNames.
          thenp (step (CreateTable tableName colNames) (createTable e tableName colNames))
         (thenp (emit (Detached (InsertSampleData tableName)))
         (outlived (detached (insertSampleData e tableName credentials))
         (thenp (if \<not> argv_no_workflow a then
                   thenp (emit (ConsoleLog (Text newline)))
                     (step (GenerateCRUDWorkflow tableName)
                        (struck (detached (insertSampleData e tableName credentials))
                           (strike e = 0)
                           (generateCRUDWorkflow e tableName)))
                 else ret ())
         (thenp (emit (ConsoleLog (Text newline)))
         (thenp (emit (Call (CreateAppForTable (tableName @ '' App'') tableName
                               (searchColumnName colNames))))
            (createAppForTable
               (e\<lparr>postRequest := (\<lambda>url b.
                    struck (detached (insertSampleData e tableName credentials))
                      (strike e = (if argv_no_workflow a then 0 else 1))
                      (postRequest e url b))\<rparr>)
               (tableName @ '' App'') tableName
               (searchColumnName colNames) credentials Default))))))))"

definition handler :: "env \<Rightarrow> argv \<Rightarrow> unit proc" where
  "handler e a =
     bindp (step GetAndVerifyCredentialsWithRetoolDB (getAndVerifyCredentialsWithRetoolDB e))
       (\<lambda>credentials.
          thenp (emit (Detached LogDAU))
            (if \<not> falsy (argv_delete a) then scaffold_delete e credentials (the (argv_delete a))
             else (case argv_f a of
                     Some csvFileNames \<Rightarrow> fromCSV e a credentials csvFileNames
                   | None \<Rightarrow> scaffold_create e a credentials)))"

section \<open>The specified shapes and the order of the checks\<close>

text \<open>
  The canonical form of a version-4 UUID as the specification words it: five groups of
  8, 4, 4, 4 and 12 hexadecimal digits separated by dashes, the first digit of the third
  group \<^verbatim>\<open>4\<close>, the first digit of the fourth one of \<^verbatim>\<open>8\<close>, \<^verbatim>\<open>9\<close>, \<^verbatim>\<open>a\<close>, \<^verbatim>\<open>b\<close>. What a
  hexadecimal digit is, is a parameter: lower case only, or either case.
\<close>

definition hex_digit_lower :: "char \<Rightarrow> bool" where
  "hex_digit_lower c \<longleftrightarrow> c \<in> set ''0123456789abcdef''"

definition hex_digit_any_case :: "char \<Rightarrow> bool" where
  "hex_digit_any_case c \<longleftrightarrow> c \<in> set ''0123456789abcdefABCDEF''"

definition uuid_v4_canonical :: "(char \<Rightarrow> bool) \<Rightarrow> string \<Rightarrow> bool" where
  "uuid_v4_canonical hex s \<longleftrightarrow>
     length s = 36 \<and>
     s ! 8 = CHR ''-'' \<and> s ! 13 = CHR ''-'' \<and> s ! 18 = CHR ''-'' \<and> s ! 23 = CHR ''-'' \<and>
     list_all hex (take 8 s) \<and>
     list_all hex (take 4 (drop 9 s)) \<and>
     list_all hex (take 4 (drop 14 s)) \<and>
     list_all hex (take 4 (drop 19 s)) \<and>
     list_all hex (take 12 (drop 24 s)) \<and>
     s ! 14 = CHR ''4'' \<and>
     s ! 19 \<in> set ''89ab''"

text \<open>
  The two other shapes of the specification. An access token is three segments separated
  by dots, each non-empty and of URL-safe characters (letters, digits, \<^verbatim>\<open>-\<close> and \<^verbatim>\<open>_\<close>). A
  domain is a hostname: labels separated by dots, each non-empty, of letters, digits and
  hyphens, with no hyphen at its start or at its end. \<open>segments\<close> cuts a string at its dots.
\<close>

definition url_safe :: "char \<Rightarrow> bool" where
  "url_safe c \<longleftrightarrow>
     c \<in> set ''ABCDEFGHIJKLMNOPQRSTUVWXYZabcdefghijklmnopqrstuvwxyz0123456789-_''"

definition alphanumeric :: "char \<Rightarrow> bool" where
  "alphanumeric c \<longleftrightarrow>
     c \<in> set ''ABCDEFGHIJKLMNOPQRSTUVWXYZabcdefghijklmnopqrstuvwxyz0123456789''"

fun segments :: "string \<Rightarrow> string list" where
  "segments [] = [[]]"
| "segments (c # cs) =
     (if c = CHR ''.'' then [] # segments cs
      else (c # hd (segments cs)) # tl (segments cs))"

definition token_shape :: "string \<Rightarrow> bool" where
  "token_shape s \<longleftrightarrow>
     length (segments s) = 3 \<and> list_all (\<lambda>g. g \<noteq> [] \<and> list_all url_safe g) (segments s)"

definition label_shape :: "string \<Rightarrow> bool" where
  "label_shape l \<longleftrightarrow>
     l \<noteq> [] \<and> list_all (\<lambda>c. alphanumeric c \<or> c = CHR ''-'') l
     \<and> hd l \<noteq> CHR ''-'' \<and> last l \<noteq> CHR ''-''"

definition hostname_shape :: "string \<Rightarrow> bool" where
  "hostname_shape s \<longleftrightarrow> list_all label_shape (segments s)"

text \<open>
  A field of the record is well-formed when it has the shape the specification gives it,
  and malformed otherwise; what a hexadecimal digit of the session token is, stays a
  parameter. The specified order of the checks, the fields checked up to and including a
  given one, and the run that rejects a field: its message is printed and the process
  exits with code 1.
\<close>

definition wellformed :: "(char \<Rightarrow> bool) \<Rightarrow> field \<Rightarrow> string \<Rightarrow> bool" where
  "wellformed hex fld v = (case fld of
       XsrfField \<Rightarrow> uuid_v4_canonical hex v
     | AccessTokenField \<Rightarrow> token_shape v
     | DomainField \<Rightarrow> hostname_shape v)"

definition field_value :: "'a Credentials_scheme \<Rightarrow> field \<Rightarrow> string" where
  "field_value c fld = (case fld of
       XsrfField \<Rightarrow> xsrf c
     | AccessTokenField \<Rightarrow> accessToken c
     | DomainField \<Rightarrow> domain c)"

definition malformed :: "(char \<Rightarrow> bool) \<Rightarrow> 'a Credentials_scheme \<Rightarrow> field \<Rightarrow> bool" where
  "malformed hex c fld = (\<not> wellformed hex fld (field_value c fld))"

definition check_order :: "field list" where
  "check_order = [XsrfField, AccessTokenField, DomainField]"

definition checked_up_to :: "field \<Rightarrow> field list" where
  "checked_up_to fld = takeWhile (\<lambda>g. g \<noteq> fld) check_order @ [fld]"

definition rejected :: "field \<Rightarrow> unit proc" where
  "rejected fld = (\<lambda>w. (Exited 1, w\<lparr>events := events w @ [ConsoleLog (Text (invalid_message fld))]\<rparr>))"

text \<open>
  The world at the start of a process, with what is on disk. The apps a deletion by name
  counts: those of the response outside the trash folder whose name is the one asked for.
  The steps of a trace are its prompts and the invocations of the pipeline's functions,
  awaited or detached.
\<close>

definition fresh :: "Credentials option \<Rightarrow> world" where
  "fresh d = \<lparr>disk = d, events = []\<rparr>"

definition matching_apps :: "Response option \<Rightarrow> string \<Rightarrow> App list" where
  "matching_apps rsp appName =
     (case apps_outside_trash rsp of
        None \<Rightarrow> []
      | Some apps \<Rightarrow> filter (\<lambda>app. app_name app = appName) apps)"

definition is_step :: "event \<Rightarrow> bool" where
  "is_step ev = (case ev of Call _ \<Rightarrow> True | Detached _ \<Rightarrow> True | Prompt _ \<Rightarrow> True | _ \<Rightarrow> False)"

definition steps_of :: "event list \<Rightarrow> event list" where
  "steps_of evs = filter is_step evs"

section \<open>Example inputs\<close>

text \<open>Answers to the login prompt, and records on disk.\<close>

definition login_answer :: Credentials where
  "login_answer = \<lparr>domain = ''my-org.retool.com'', xsrf = ''26725f72-8129-47f7-835a-cba0e5dbcfe6'',
     accessToken = ''eyJhbGci.eyJzdWIi.SflKxwRJ'', gridId = None, retoolDBUuid = None,
     hasConnectionString = None, firstName = None, lastName = None, email = None\<rparr>"

definition upper_uuid :: string where
  "upper_uuid = ''26725F72-8129-47F7-835A-CBA0E5DBCFE6''"

definition bad_answer :: Credentials where
  "bad_answer = login_answer\<lparr>accessToken := ''not a token'', domain := ''-bad-.example.com''\<rparr>"

definition upper_answer :: Credentials where
  "upper_answer = login_answer\<lparr>xsrf := upper_uuid, accessToken := ''not a token''\<rparr>"

definition stale_credentials :: Credentials where
  "stale_credentials = login_answer\<lparr>gridId := Some ''grid-old'', retoolDBUuid := Some ''db-old'',
     hasConnectionString := Some False, email := Some ''a@example.com''\<rparr>"

definition session :: SessionCredentials where
  "session = Credentials.extend
     (login_answer\<lparr>gridId := Some ''grid-new'', retoolDBUuid := Some ''9f3a'',
        hasConnectionString := Some True\<rparr>)
     (SessionCredentials.fields ''https://my-org.retool.com'')"

text \<open>
  Collaborators: by default every request is answered with nothing, every step of the
  pipeline returns and every prompt is accepted.
\<close>

definition no_data :: ResponseData where
  "no_data = \<lparr>pages = None, folders = None, resources = None, gridInfo = None, pageUuid = None,
     tableInfo = None\<rparr>"

definition quiet_env :: env where
  "quiet_env = \<lparr>confirm = (\<lambda>_. True), getRequest = (\<lambda>_. Returned None),
     postRequest = (\<lambda>_ _. Returned None), writable = True, chalk_bold = (\<lambda>s. s),
     getAndVerifyCredentialsWithRetoolDB = Threw, collectTableName = Threw,
     collectColumnNames = Threw, createTable = (\<lambda>_ _. Returned ()),
     createTableFromCSV = (\<lambda>_. Threw), generateCRUDWorkflow = (\<lambda>_. Returned ()),
     deleteTable = (\<lambda>_. Returned ()), deleteWorkflow = (\<lambda>_. Returned ()),
     generateDataWithGPT = (\<lambda>_. Returned None), strike = 0\<rparr>"

definition declining :: "env \<Rightarrow> env" where
  "declining e = e\<lparr>confirm := (\<lambda>_. False)\<rparr>"

definition table_failing :: "env \<Rightarrow> env" where
  "table_failing e = e\<lparr>createTable := (\<lambda>_ _. Exited 1), deleteTable := (\<lambda>_. Exited 1)\<rparr>"

definition workflow_failing :: "env \<Rightarrow> env" where
  "workflow_failing e = e\<lparr>generateCRUDWorkflow := (\<lambda>_. Exited 1)\<rparr>"

text \<open>An account with the given resources, where the grid of \<^verbatim>\<open>9f3a\<close> can be fetched.\<close>

definition other_db :: Resource where
  "other_db = \<lparr>res_displayName = ''warehouse'', res_name = ''4e1c''\<rparr>"

definition retool_db_1 :: Resource where
  "retool_db_1 = \<lparr>res_displayName = ''retool_db'', res_name = ''9f3a''\<rparr>"

definition retool_db_2 :: Resource where
  "retool_db_2 = \<lparr>res_displayName = ''retool_db'', res_name = ''77b0''\<rparr>"

definition grid_of_9f3a :: GridInfo where
  "grid_of_9f3a = \<lparr>grid_id = Some ''grid-new'', grid_connectionString = Some ''postgresql://u@h/db''\<rparr>"

definition resolver_env :: "Resource list \<Rightarrow> env" where
  "resolver_env rs = quiet_env\<lparr>getRequest := (\<lambda>url.
     if url = ''https://my-org.retool.com/api/resources''
       then Returned (Some \<lparr>data = Some (no_data\<lparr>resources := Some rs\<rparr>)\<rparr>)
     else if url = ''https://my-org.retool.com/api/grid/retooldb/9f3a?env=production''
       then Returned (Some \<lparr>data = Some (no_data\<lparr>gridInfo := Some grid_of_9f3a\<rparr>)\<rparr>)
     else Threw)\<rparr>"

text \<open>
  An account with the given apps, none in the trash, where every request succeeds and the
  table \<^verbatim>\<open>orders\<close> can be described.
\<close>

definition app_named :: "string \<Rightarrow> string \<Rightarrow> App" where
  "app_named n i = \<lparr>app_uuid = ''u-'' @ i, app_name = n, app_folderId = 1, app_id = i,
     app_protected = False, app_updatedAt = ''2023-09-01T00:00:00.000Z'',
     app_createdAt = ''2023-09-01T00:00:00.000Z'', app_isGlobalWidget = False\<rparr>"

definition apps_env :: "App list \<Rightarrow> env" where
  "apps_env apps = quiet_env\<lparr>
     getRequest := (\<lambda>url.
       if url = ''https://my-org.retool.com/api/pages?mobileAppsOnly=false''
         then Returned (Some \<lparr>data = Some (no_data\<lparr>pages := Some apps, folders := Some []\<rparr>)\<rparr>)
       else if url = ''https://my-org.retool.com/api/grid/grid-new/table/orders/info''
         then Returned (Some \<lparr>data = Some (no_data\<lparr>tableInfo :=
                Some \<lparr>tbl_fields = [''id'', ''name'']\<rparr>\<rparr>)\<rparr>)
       else Threw),
     postRequest := (\<lambda>url b.
       if url = ''https://my-org.retool.com/api/pages/autogeneratePage''
         then Returned (Some \<lparr>data = Some (no_data\<lparr>pageUuid := Some ''p-1''\<rparr>)\<rparr>)
       else Returned (Some \<lparr>data = Some no_data\<rparr>)),
     getAndVerifyCredentialsWithRetoolDB := Returned session\<rparr>"

text \<open>The command lines of the two scenarios.\<close>

definition orders_argv :: argv where
  "orders_argv = \<lparr>argv_name = Some ''orders'', argv_columns = Some [''id'', ''name''],
     argv_delete = None, argv_f = None, argv_no_workflow = False, argv_force = False\<rparr>"

definition delete_orders_argv :: argv where
  "delete_orders_argv = \<lparr>argv_name = None, argv_columns = None,
     argv_delete = Some ''orders'', argv_f = None, argv_no_workflow = False, argv_force = True\<rparr>"

section \<open>Regular expressions: matching decides membership\<close>

lemma nullable_lang: "nullable r \<longleftrightarrow> [] \<in> lang r"
  by (induction r) (auto simp: conc_def intro: star.star_nil)

lemma in_class_single: "in_class [(c, c)] x \<longleftrightarrow> x = c"
  by (auto simp: in_class_def)

lemma conc_class_Cons:
  "a # v \<in> conc {[c] | c. P c} B \<longleftrightarrow> P a \<and> v \<in> B"
proof
  assume "a # v \<in> conc {[c] | c. P c} B"
  then show "P a \<and> v \<in> B" by (auto simp: conc_def)
next
  assume "P a \<and> v \<in> B"
  then have "[a] \<in> {[c] | c. P c}" "v \<in> B" by simp_all
  then have "[a] @ v \<in> conc {[c] | c. P c} B" unfolding conc_def by blast
  then show "a # v \<in> conc {[c] | c. P c} B" by simp
qed

lemma conc_class:
  "s \<in> conc {[c] | c. P c} B \<longleftrightarrow> 1 \<le> length s \<and> P (s ! 0) \<and> drop 1 s \<in> B"
proof (cases s)
  case Nil
  then show ?thesis by (auto simp: conc_def)
next
  case (Cons a v)
  then show ?thesis by (simp add: conc_class_Cons)
qed

lemma lang_rep_Cls: "lang (rep n (Cls k)) = {w. length w = n \<and> list_all (in_class k) w}"
proof (induction n)
  case 0
  then show ?case by auto
next
  case (Suc n)
  show ?case
  proof (rule set_eqI)
    fix w
    show "w \<in> lang (rep (Suc n) (Cls k)) \<longleftrightarrow> w \<in> {w. length w = Suc n \<and> list_all (in_class k) w}"
    proof (cases w)
      case Nil
      then show ?thesis by (auto simp: conc_def)
    next
      case (Cons a v)
      then show ?thesis by (auto simp: Suc.IH conc_class_Cons)
    qed
  qed
qed

lemma conc_fixed:
  assumes "\<forall>u\<in>A. length u = n"
  shows "s \<in> conc A B \<longleftrightarrow> n \<le> length s \<and> take n s \<in> A \<and> drop n s \<in> B"
proof
  assume "s \<in> conc A B"
  then obtain u v where "s = u @ v" "u \<in> A" "v \<in> B" by (auto simp: conc_def)
  moreover from this assms have "length u = n" by blast
  ultimately show "n \<le> length s \<and> take n s \<in> A \<and> drop n s \<in> B" by simp
next
  assume "n \<le> length s \<and> take n s \<in> A \<and> drop n s \<in> B"
  then have "take n s @ drop n s \<in> conc A B" unfolding conc_def by blast
  then show "s \<in> conc A B" by simp
qed

lemma conc_rep:
  "s \<in> conc (lang (rep n (Cls k))) B \<longleftrightarrow>
     n \<le> length s \<and> list_all (in_class k) (take n s) \<and> drop n s \<in> B"
  by (subst conc_fixed[where n = n]) (auto simp: lang_rep_Cls)



lemma char_between_digits:
  assumes "48 \<le> (of_char c :: nat)" "(of_char c :: nat) \<le> 57"
  shows "c \<in> set ''0123456789''"
proof -
  define n where "n = (of_char c :: nat)"
  have c: "c = char_of n" by (simp add: n_def)
  from assms have "n = 48 \<or> n = 49 \<or> n = 50 \<or> n = 51 \<or> n = 52 \<or> n = 53 \<or> n = 54
      \<or> n = 55 \<or> n = 56 \<or> n = 57"
    unfolding n_def by arith
  then show ?thesis unfolding c by (elim disjE) (simp_all, code_simp+)
qed

lemma char_between_a_f:
  assumes "97 \<le> (of_char c :: nat)" "(of_char c :: nat) \<le> 102"
  shows "c \<in> set ''abcdef''"
proof -
  define n where "n = (of_char c :: nat)"
  have c: "c = char_of n" by (simp add: n_def)
  from assms have "n = 97 \<or> n = 98 \<or> n = 99 \<or> n = 100 \<or> n = 101 \<or> n = 102"
    unfolding n_def by arith
  then show ?thesis unfolding c by (elim disjE) (simp_all, code_simp+)
qed

lemma in_class_hex_lower: "in_class hex_lower c \<longleftrightarrow> hex_digit_lower c"
proof
  assume "in_class hex_lower c"
  then consider "48 \<le> (of_char c :: nat)" "(of_char c :: nat) \<le> 57"
    | "97 \<le> (of_char c :: nat)" "(of_char c :: nat) \<le> 102"
    by (auto simp: in_class_def hex_lower_def)
  then show "hex_digit_lower c"
  proof cases
    case 1
    then show ?thesis using char_between_digits[of c] by (auto simp: hex_digit_lower_def)
  next
    case 2
    then show ?thesis using char_between_a_f[of c] by (auto simp: hex_digit_lower_def)
  qed
next
  assume "hex_digit_lower c"
  then show "in_class hex_lower c"
    by (auto simp: in_class_def hex_lower_def hex_digit_lower_def)
qed

lemma in_class_Cons: "in_class (r # rs) c \<longleftrightarrow> in_class [r] c \<or> in_class rs c"
  by (simp add: in_class_def)

lemma in_class_variant_89ab: "in_class variant_89ab c \<longleftrightarrow> c \<in> set ''89ab''"
  unfolding variant_89ab_def
  by (subst in_class_Cons, subst in_class_single)+ (auto simp: in_class_def)

lemma lang_uuidRegEx:
  "s \<in> lang uuidRegEx \<longleftrightarrow>
     8 \<le> length s \<and> list_all hex_digit_lower (take 8 s) \<and>
     Suc 0 \<le> length s - 8 \<and> drop 8 s ! 0 = CHR ''-'' \<and>
     4 \<le> length s - 9 \<and> list_all hex_digit_lower (take 4 (drop 9 s)) \<and>
     Suc 0 \<le> length s - 13 \<and> drop 13 s ! 0 = CHR ''-'' \<and>
     Suc 0 \<le> length s - 14 \<and> drop 14 s ! 0 = CHR ''4'' \<and>
     3 \<le> length s - 15 \<and> list_all hex_digit_lower (take 3 (drop 15 s)) \<and>
     Suc 0 \<le> length s - 18 \<and> drop 18 s ! 0 = CHR ''-'' \<and>
     Suc 0 \<le> length s - 19 \<and> drop 19 s ! 0 \<in> set ''89ab'' \<and>
     3 \<le> length s - 20 \<and> list_all hex_digit_lower (take 3 (drop 20 s)) \<and>
     Suc 0 \<le> length s - 23 \<and> drop 23 s ! 0 = CHR ''-'' \<and>
     12 \<le> length s - 24 \<and> list_all hex_digit_lower (take 12 (drop 24 s)) \<and>
     length s \<le> 36"
  unfolding uuidRegEx_def seqs_def foldr.simps o_def lang.simps(4) chr_def lang.simps(3)
  apply (simp only: conc_rep conc_class in_class_single drop_drop)
  apply (simp add: in_class_hex_lower[abs_def] in_class_variant_89ab del: list.set)
  done

lemma take_Suc_drop_all:
  "n < length s \<Longrightarrow> list_all P (take (Suc k) (drop n s)) \<longleftrightarrow> P (s ! n) \<and> list_all P (take k (drop (Suc n) s))"
  by (simp add: Cons_nth_drop_Suc[symmetric])

lemma uuid_lang_canonical:
  "s \<in> lang uuidRegEx \<longleftrightarrow> uuid_v4_canonical hex_digit_lower s"
proof
  assume "s \<in> lang uuidRegEx"
  then have c: "8 \<le> length s \<and> list_all hex_digit_lower (take 8 s) \<and>
     Suc 0 \<le> length s - 8 \<and> drop 8 s ! 0 = CHR ''-'' \<and>
     4 \<le> length s - 9 \<and> list_all hex_digit_lower (take 4 (drop 9 s)) \<and>
     Suc 0 \<le> length s - 13 \<and> drop 13 s ! 0 = CHR ''-'' \<and>
     Suc 0 \<le> length s - 14 \<and> drop 14 s ! 0 = CHR ''4'' \<and>
     3 \<le> length s - 15 \<and> list_all hex_digit_lower (take 3 (drop 15 s)) \<and>
     Suc 0 \<le> length s - 18 \<and> drop 18 s ! 0 = CHR ''-'' \<and>
     Suc 0 \<le> length s - 19 \<and> drop 19 s ! 0 \<in> set ''89ab'' \<and>
     3 \<le> length s - 20 \<and> list_all hex_digit_lower (take 3 (drop 20 s)) \<and>
     Suc 0 \<le> length s - 23 \<and> drop 23 s ! 0 = CHR ''-'' \<and>
     12 \<le> length s - 24 \<and> list_all hex_digit_lower (take 12 (drop 24 s)) \<and>
     length s \<le> 36"
    by (simp only: lang_uuidRegEx)
  then have len: "length s = 36" by linarith
  have *: "length s = 36" "s ! 8 = CHR ''-''" "s ! 13 = CHR ''-''" "s ! 18 = CHR ''-''"
     "s ! 23 = CHR ''-''" "s ! 14 = CHR ''4''" "s ! 19 \<in> set ''89ab''"
     "list_all hex_digit_lower (take 8 s)" "list_all hex_digit_lower (take 4 (drop 9 s))"
     "list_all hex_digit_lower (take 3 (drop 15 s))" "list_all hex_digit_lower (take 3 (drop 20 s))"
     "list_all hex_digit_lower (take 12 (drop 24 s))"
    using c len by (simp_all del: list.set)
  have "list_all hex_digit_lower (take 4 (drop 14 s))"
    using take_Suc_drop_all[of 14 s hex_digit_lower 3] *
    by (simp add: hex_digit_lower_def eval_nat_numeral)
  moreover have "list_all hex_digit_lower (take 4 (drop 19 s))"
    using take_Suc_drop_all[of 19 s hex_digit_lower 3] *
    by (auto simp add: hex_digit_lower_def eval_nat_numeral)
  ultimately show "uuid_v4_canonical hex_digit_lower s"
    using * unfolding uuid_v4_canonical_def by (simp del: list.set)
next
  assume "uuid_v4_canonical hex_digit_lower s"
  then have *: "length s = 36" "s ! 8 = CHR ''-''" "s ! 13 = CHR ''-''" "s ! 18 = CHR ''-''"
     "s ! 23 = CHR ''-''" "s ! 14 = CHR ''4''" "s ! 19 \<in> set ''89ab''"
     "list_all hex_digit_lower (take 8 s)" "list_all hex_digit_lower (take 4 (drop 9 s))"
     "list_all hex_digit_lower (take 4 (drop 14 s))" "list_all hex_digit_lower (take 4 (drop 19 s))"
     "list_all hex_digit_lower (take 12 (drop 24 s))"
    unfolding uuid_v4_canonical_def by blast+
  have "list_all hex_digit_lower (take 3 (drop 15 s))"
    using take_Suc_drop_all[of 14 s hex_digit_lower 3] *
    by (simp add: eval_nat_numeral)
  moreover have "list_all hex_digit_lower (take 3 (drop 20 s))"
    using take_Suc_drop_all[of 19 s hex_digit_lower 3] *
    by (simp add: eval_nat_numeral)
  ultimately show "s \<in> lang uuidRegEx"
    using * unfolding lang_uuidRegEx by (simp del: list.set)
qed


lemma star_cons_split:
  assumes "w \<in> star A" "w = c # t"
  shows "\<exists>u v. t = u @ v \<and> c # u \<in> A \<and> v \<in> star A"
  using assms
proof (induction arbitrary: t rule: star.induct)
  case star_nil
  then show ?case by simp
next
  case (star_app u v)
  show ?case
  proof (cases u)
    case Nil
    with star_app show ?thesis by simp
  next
    case (Cons a u')
    with star_app.prems star_app.hyps show ?thesis by auto
  qed
qed

lemma der_lang: "t \<in> lang (der c r) \<longleftrightarrow> c # t \<in> lang r"
proof (induction r arbitrary: t)
  case (Seq r s)
  show ?case
  proof
    assume "t \<in> lang (der c (Seq r s))"
    then consider (l) u v where "t = u @ v" "u \<in> lang (der c r)" "v \<in> lang s"
      | (r) "nullable r" "t \<in> lang (der c s)"
      by (auto simp: conc_def split: if_splits)
    then show "c # t \<in> lang (Seq r s)"
    proof cases
      case l
      then have "c # u \<in> lang r" using Seq.IH(1) by simp
      then have "(c # u) @ v \<in> conc (lang r) (lang s)" using l(3) unfolding conc_def by blast
      then show ?thesis using l(1) by simp
    next
      case r
      then have "[] \<in> lang r" "c # t \<in> lang s" using Seq.IH(2) by (simp_all add: nullable_lang)
      then have "[] @ (c # t) \<in> conc (lang r) (lang s)" unfolding conc_def by blast
      then show ?thesis by simp
    qed
  next
    assume "c # t \<in> lang (Seq r s)"
    then obtain u v where uv: "c # t = u @ v" "u \<in> lang r" "v \<in> lang s"
      by (auto simp: conc_def)
    show "t \<in> lang (der c (Seq r s))"
    proof (cases u)
      case Nil
      then have "nullable r" "t \<in> lang (der c s)" using uv Seq.IH(2) by (simp_all add: nullable_lang)
      then show ?thesis by simp
    next
      case (Cons a u')
      then have "a = c" "t = u' @ v" "u' \<in> lang (der c r)" using uv Seq.IH(1) by simp_all
      then have "t \<in> conc (lang (der c r)) (lang s)" using uv(3) unfolding conc_def by blast
      then show ?thesis by simp
    qed
  qed
next
  case (Star r)
  show ?case
  proof
    assume "t \<in> lang (der c (Star r))"
    then obtain u v where "t = u @ v" "u \<in> lang (der c r)" "v \<in> star (lang r)"
      by (auto simp: conc_def)
    then have "(c # u) @ v \<in> star (lang r)" using Star.IH by (intro star.star_app) simp_all
    then show "c # t \<in> lang (Star r)" using \<open>t = u @ v\<close> by simp
  next
    assume "c # t \<in> lang (Star r)"
    then obtain u v where "t = u @ v" "c # u \<in> lang r" "v \<in> star (lang r)"
      using star_cons_split[of "c # t" "lang r" c t] by auto
    then show "t \<in> lang (der c (Star r))" using Star.IH by (auto simp: conc_def)
  qed
qed auto

lemma matches_lang: "matches r s \<longleftrightarrow> s \<in> lang r"
  by (induction s arbitrary: r) (simp_all add: nullable_lang der_lang)

lemma matches_uuidRegEx: "matches uuidRegEx s \<longleftrightarrow> uuid_v4_canonical hex_digit_lower s"
  by (simp add: matches_lang uuid_lang_canonical)

text \<open>
  The two other expressions against the shapes of the specification: the classes of the
  expressions are the character sets of the shapes, and cutting at the dots gives back
  the pieces the expressions are built from.
\<close>

lemma chars_between:
  assumes "hi < 256"
  shows "lo \<le> (of_char c :: nat) \<and> (of_char c :: nat) \<le> hi \<longleftrightarrow> c \<in> set (map char_of [lo..<Suc hi])"
proof
  assume "lo \<le> (of_char c :: nat) \<and> (of_char c :: nat) \<le> hi"
  then have "of_char c \<in> set [lo..<Suc hi]" by auto
  then have "char_of (of_char c :: nat) \<in> set (map char_of [lo..<Suc hi])"
    by (simp only: set_map image_eqI)
  then show "c \<in> set (map char_of [lo..<Suc hi])" by simp
next
  assume "c \<in> set (map char_of [lo..<Suc hi])"
  then obtain n where n: "c = char_of n" "lo \<le> n" "n \<le> hi" by auto
  then have "(of_char c :: nat) = n" using assms by simp
  then show "lo \<le> (of_char c :: nat) \<and> (of_char c :: nat) \<le> hi" using n by simp
qed

lemma upper_chars: "map char_of [65..<Suc 90 :: nat] = ''ABCDEFGHIJKLMNOPQRSTUVWXYZ''"
  by code_simp

lemma lower_chars: "map char_of [97..<Suc 122 :: nat] = ''abcdefghijklmnopqrstuvwxyz''"
  by code_simp

lemma digit_chars: "map char_of [48..<Suc 57 :: nat] = ''0123456789''"
  by code_simp

lemma in_class_range:
  "in_class [(lo, hi)] c \<longleftrightarrow> (of_char lo :: nat) \<le> of_char c \<and> (of_char c :: nat) \<le> of_char hi"
  by (simp add: in_class_def)

lemma in_upper: "in_class [(CHR ''A'', CHR ''Z'')] c \<longleftrightarrow> c \<in> set ''ABCDEFGHIJKLMNOPQRSTUVWXYZ''"
proof -
  have "in_class [(CHR ''A'', CHR ''Z'')] c \<longleftrightarrow> 65 \<le> (of_char c :: nat) \<and> (of_char c :: nat) \<le> 90"
    by (simp add: in_class_range)
  also have "\<dots> \<longleftrightarrow> c \<in> set (map char_of [65..<Suc 90 :: nat])"
    by (rule chars_between) simp
  finally show ?thesis by (simp only: upper_chars)
qed

lemma in_lower: "in_class [(CHR ''a'', CHR ''z'')] c \<longleftrightarrow> c \<in> set ''abcdefghijklmnopqrstuvwxyz''"
proof -
  have "in_class [(CHR ''a'', CHR ''z'')] c \<longleftrightarrow> 97 \<le> (of_char c :: nat) \<and> (of_char c :: nat) \<le> 122"
    by (simp add: in_class_range)
  also have "\<dots> \<longleftrightarrow> c \<in> set (map char_of [97..<Suc 122 :: nat])"
    by (rule chars_between) simp
  finally show ?thesis by (simp only: lower_chars)
qed

lemma in_digit: "in_class [(CHR ''0'', CHR ''9'')] c \<longleftrightarrow> c \<in> set ''0123456789''"
proof -
  have "in_class [(CHR ''0'', CHR ''9'')] c \<longleftrightarrow> 48 \<le> (of_char c :: nat) \<and> (of_char c :: nat) \<le> 57"
    by (simp add: in_class_range)
  also have "\<dots> \<longleftrightarrow> c \<in> set (map char_of [48..<Suc 57 :: nat])"
    by (rule chars_between) simp
  finally show ?thesis by (simp only: digit_chars)
qed

lemma alphanumeric_split:
  "alphanumeric c \<longleftrightarrow> c \<in> set ''ABCDEFGHIJKLMNOPQRSTUVWXYZ''
     \<or> c \<in> set ''abcdefghijklmnopqrstuvwxyz'' \<or> c \<in> set ''0123456789''"
proof -
  have "''ABCDEFGHIJKLMNOPQRSTUVWXYZabcdefghijklmnopqrstuvwxyz0123456789''
      = ''ABCDEFGHIJKLMNOPQRSTUVWXYZ'' @ ''abcdefghijklmnopqrstuvwxyz'' @ ''0123456789''"
    by simp
  then show ?thesis
    unfolding alphanumeric_def by (simp only: set_append Un_iff)
qed

lemma url_safe_split: "url_safe c \<longleftrightarrow> alphanumeric c \<or> c = CHR ''-'' \<or> c = CHR ''_''"
proof -
  have "''ABCDEFGHIJKLMNOPQRSTUVWXYZabcdefghijklmnopqrstuvwxyz0123456789-_''
      = ''ABCDEFGHIJKLMNOPQRSTUVWXYZabcdefghijklmnopqrstuvwxyz0123456789'' @ ''-_''"
    by simp
  then have "url_safe c \<longleftrightarrow> alphanumeric c \<or> c \<in> set ''-_''"
    unfolding url_safe_def alphanumeric_def by (simp only: set_append Un_iff)
  then show ?thesis by simp
qed

lemma in_class_alnum: "in_class alnum c \<longleftrightarrow> alphanumeric c"
  unfolding alnum_def
  by (subst in_class_Cons, subst in_class_Cons)
    (simp only: in_upper in_lower in_digit alphanumeric_split, blast)

lemma in_class_alnum_dash: "in_class alnum_dash c \<longleftrightarrow> alphanumeric c \<or> c = CHR ''-''"
proof -
  have "in_class alnum_dash c \<longleftrightarrow> in_class alnum c \<or> in_class [(CHR ''-'', CHR ''-'')] c"
    by (simp add: alnum_dash_def in_class_def)
  then show ?thesis by (simp only: in_class_alnum in_class_single)
qed

lemma in_class_word_or_dash: "in_class word_or_dash c \<longleftrightarrow> url_safe c"
proof -
  have "in_class word_or_dash c \<longleftrightarrow>
      in_class [(CHR ''A'', CHR ''Z'')] c \<or> in_class [(CHR ''a'', CHR ''z'')] c
      \<or> in_class [(CHR ''0'', CHR ''9'')] c \<or> in_class [(CHR ''_'', CHR ''_'')] c
      \<or> in_class [(CHR ''-'', CHR ''-'')] c"
    by (simp add: word_or_dash_def in_class_def)
  then show ?thesis
    by (simp only: in_upper in_lower in_digit in_class_single url_safe_split alphanumeric_split)
      blast
qed

lemma star_class: "star {[c] | c. P c} = {w. list_all P w}"
proof (intro set_eqI iffI)
  fix w assume "w \<in> star {[c] | c. P c}"
  then have "list_all P w" by (induction rule: star.induct) auto
  then show "w \<in> {w. list_all P w}" by simp
next
  fix w assume "w \<in> {w. list_all P w}"
  then have "list_all P w" by simp
  then show "w \<in> star {[c] | c. P c}"
  proof (induction w)
    case Nil
    show ?case by (rule star.star_nil)
  next
    case (Cons a w)
    then have "[a] \<in> {[c] | c. P c}" "w \<in> star {[c] | c. P c}" by simp_all
    then have "[a] @ w \<in> star {[c] | c. P c}" by (rule star.star_app)
    then show ?case by simp
  qed
qed

lemma lang_plus1_Cls: "lang (plus1 (Cls k)) = {w. w \<noteq> [] \<and> list_all (in_class k) w}"
proof (intro set_eqI)
  fix w
  show "w \<in> lang (plus1 (Cls k)) \<longleftrightarrow> w \<in> {w. w \<noteq> [] \<and> list_all (in_class k) w}"
  proof (cases w)
    case Nil
    then show ?thesis by (simp add: plus1_def conc_def)
  next
    case (Cons a v)
    then show ?thesis by (simp add: plus1_def conc_class_Cons star_class)
  qed
qed

lemma segments_not_Nil: "segments s \<noteq> []"
  by (induction s) simp_all

lemma segments_no_dot:
  "CHR ''.'' \<notin> set u \<Longrightarrow> segments (u @ v) = (u @ hd (segments v)) # tl (segments v)"
  by (induction u) (auto simp: segments_not_Nil)

lemma segments_dot:
  "CHR ''.'' \<notin> set u \<Longrightarrow> segments (u @ CHR ''.'' # v) = u # segments v"
  by (simp add: segments_no_dot)

lemma segments_single: "CHR ''.'' \<notin> set u \<Longrightarrow> segments u = [u]"
  using segments_no_dot[of u "[]"] by simp

lemma segments_cases:
  obtains (single) "CHR ''.'' \<notin> set s" "segments s = [s]"
  | (dot) u v where "s = u @ CHR ''.'' # v" "CHR ''.'' \<notin> set u" "segments s = u # segments v"
proof (cases "CHR ''.'' \<in> set s")
  case False
  then show ?thesis using single segments_single by blast
next
  case True
  then obtain u v where "s = u @ CHR ''.'' # v" "CHR ''.'' \<notin> set u"
    by (meson split_list_first)
  then show ?thesis using dot segments_dot by blast
qed

lemma dot_not_url_safe: "\<not> url_safe CHR ''.''"
  by (simp add: url_safe_split alphanumeric_split)

lemma url_safe_no_dot: "list_all url_safe w \<Longrightarrow> CHR ''.'' \<notin> set w"
  using dot_not_url_safe by (induction w) auto

lemma concI: "u \<in> A \<Longrightarrow> v \<in> B \<Longrightarrow> u @ v \<in> conc A B"
  unfolding conc_def by blast

lemma concE:
  assumes "s \<in> conc A B"
  obtains u v where "s = u @ v" "u \<in> A" "v \<in> B"
  using assms unfolding conc_def by blast

lemma conc_single: "c # v \<in> conc {[c]} B \<longleftrightarrow> v \<in> B"
  by (auto simp: conc_def)

lemma lang_chr: "lang (chr c) = {[c]}"
  by (auto simp: chr_def in_class_single)

lemma lang_url_safe_plus:
  "lang (plus1 (Cls word_or_dash)) = {w. w \<noteq> [] \<and> list_all url_safe w}"
  by (simp add: lang_plus1_Cls in_class_word_or_dash[abs_def])

lemma lang_jwtRegEx_unfold:
  "lang jwtRegEx =
     conc {w. w \<noteq> [] \<and> list_all url_safe w} (conc {[CHR ''.'']}
    (conc {w. w \<noteq> [] \<and> list_all url_safe w} (conc {[CHR ''.'']}
    (conc {w. w \<noteq> [] \<and> list_all url_safe w} {[]}))))"
  unfolding jwtRegEx_def seqs_def foldr.simps o_def lang.simps(4) lang_url_safe_plus lang_chr
    lang.simps(2) id_apply
  by (rule refl)

lemma lang_jwtRegEx:
  "s \<in> lang jwtRegEx \<longleftrightarrow>
     (\<exists>a b c. s = a @ CHR ''.'' # b @ CHR ''.'' # c
        \<and> a \<noteq> [] \<and> list_all url_safe a \<and> b \<noteq> [] \<and> list_all url_safe b
        \<and> c \<noteq> [] \<and> list_all url_safe c)"
proof
  assume "s \<in> lang jwtRegEx"
  then show "\<exists>a b c. s = a @ CHR ''.'' # b @ CHR ''.'' # c
        \<and> a \<noteq> [] \<and> list_all url_safe a \<and> b \<noteq> [] \<and> list_all url_safe b
        \<and> c \<noteq> [] \<and> list_all url_safe c"
    unfolding lang_jwtRegEx_unfold by (elim concE) (simp, blast)
next
  assume "\<exists>a b c. s = a @ CHR ''.'' # b @ CHR ''.'' # c
        \<and> a \<noteq> [] \<and> list_all url_safe a \<and> b \<noteq> [] \<and> list_all url_safe b
        \<and> c \<noteq> [] \<and> list_all url_safe c"
  then obtain a b c where s: "s = a @ CHR ''.'' # b @ CHR ''.'' # c"
    and ok: "a \<noteq> [] \<and> list_all url_safe a" "b \<noteq> [] \<and> list_all url_safe b"
      "c \<noteq> [] \<and> list_all url_safe c"
    by blast
  have "c \<in> conc {w. w \<noteq> [] \<and> list_all url_safe w} {[]}"
    using ok(3) concI[of c "{w. w \<noteq> [] \<and> list_all url_safe w}" "[]" "{[]}"] by simp
  then have "CHR ''.'' # c
      \<in> conc {[CHR ''.'']} (conc {w. w \<noteq> [] \<and> list_all url_safe w} {[]})"
    by (simp add: conc_single)
  then have "b @ CHR ''.'' # c
      \<in> conc {w. w \<noteq> [] \<and> list_all url_safe w}
          (conc {[CHR ''.'']} (conc {w. w \<noteq> [] \<and> list_all url_safe w} {[]}))"
    using ok(2) by (intro concI) simp_all
  then have "CHR ''.'' # b @ CHR ''.'' # c
      \<in> conc {[CHR ''.'']} (conc {w. w \<noteq> [] \<and> list_all url_safe w}
          (conc {[CHR ''.'']} (conc {w. w \<noteq> [] \<and> list_all url_safe w} {[]})))"
    by (simp add: conc_single)
  then have "a @ CHR ''.'' # b @ CHR ''.'' # c \<in> lang jwtRegEx"
    unfolding lang_jwtRegEx_unfold using ok(1) by (intro concI) simp_all
  then show "s \<in> lang jwtRegEx" by (simp add: s)
qed





lemma jwt_token_shape: "s \<in> lang jwtRegEx \<longleftrightarrow> token_shape s"
proof
  assume "s \<in> lang jwtRegEx"
  then obtain a b c where s: "s = a @ CHR ''.'' # b @ CHR ''.'' # c"
    and ok: "a \<noteq> []" "list_all url_safe a" "b \<noteq> []" "list_all url_safe b"
      "c \<noteq> []" "list_all url_safe c"
    unfolding lang_jwtRegEx by blast
  have "segments s = [a, b, c]"
    using ok by (simp add: s segments_dot segments_single url_safe_no_dot)
  then show "token_shape s" using ok by (simp add: token_shape_def)
next
  assume t: "token_shape s"
  then have len: "length (segments s) = 3"
    and all: "list_all (\<lambda>g. g \<noteq> [] \<and> list_all url_safe g) (segments s)"
    by (simp_all add: token_shape_def)
  have dots: "\<exists>u v. x = u @ CHR ''.'' # v \<and> segments x = u # segments v"
    if "length (segments x) \<noteq> 1" for x
  proof (cases x rule: segments_cases)
    case single
    then show ?thesis using that by simp
  next
    case (dot u v)
    then show ?thesis by blast
  qed
  have "length (segments s) \<noteq> 1" using len by simp
  from dots[OF this] obtain a v where s: "s = a @ CHR ''.'' # v" "segments s = a # segments v"
    by blast
  then have len2: "length (segments v) = 2" using len by simp
  have "length (segments v) \<noteq> 1" using len2 by simp
  from dots[OF this] obtain b w where v: "v = b @ CHR ''.'' # w" "segments v = b # segments w"
    by blast
  then have len3: "length (segments w) = 1" using len2 by simp
  have w: "segments w = [w]"
  proof (cases w rule: segments_cases)
    case single
    then show ?thesis by simp
  next
    case (dot u v)
    then show ?thesis using len3 by (simp add: segments_not_Nil)
  qed
  have "segments s = [a, b, w]" using s v w by simp
  then have "a \<noteq> [] \<and> list_all url_safe a \<and> b \<noteq> [] \<and> list_all url_safe b
      \<and> w \<noteq> [] \<and> list_all url_safe w"
    using all by simp
  then show "s \<in> lang jwtRegEx"
    unfolding lang_jwtRegEx using s(1) v(1) by blast
qed

lemma dash_not_alphanumeric: "\<not> alphanumeric CHR ''-''"
  by (simp add: alphanumeric_split)

lemma dot_not_label_char: "\<not> (alphanumeric CHR ''.'' \<or> CHR ''.'' = CHR ''-'')"
  by (simp add: alphanumeric_split)

lemma label_no_dot: "label_shape l \<Longrightarrow> CHR ''.'' \<notin> set l"
proof -
  have "list_all (\<lambda>c. alphanumeric c \<or> c = CHR ''-'') l \<Longrightarrow> CHR ''.'' \<notin> set l"
    using dot_not_label_char by (induction l) auto
  then show "label_shape l \<Longrightarrow> CHR ''.'' \<notin> set l" by (simp add: label_shape_def)
qed

lemma lang_label_unfold:
  "lang hostname_label =
     {[c] | c. alphanumeric c}
     \<union> conc {[c] | c. alphanumeric c}
         (conc {w. list_all (\<lambda>c. alphanumeric c \<or> c = CHR ''-'') w}
           (conc {[c] | c. alphanumeric c} {[]}))"
  unfolding hostname_label_def seqs_def foldr.simps o_def lang.simps star_class id_apply
    in_class_alnum in_class_alnum_dash
  by (rule refl)

lemma middle_last:
  "v \<in> conc {w. list_all P w} (conc {[c] | c. Q c} {[]})
     \<longleftrightarrow> v \<noteq> [] \<and> list_all P (butlast v) \<and> Q (last v)"
proof
  assume "v \<in> conc {w. list_all P w} (conc {[c] | c. Q c} {[]})"
  then obtain m d where "v = m @ [d]" "list_all P m" "Q d"
    by (elim concE) auto
  then show "v \<noteq> [] \<and> list_all P (butlast v) \<and> Q (last v)" by simp
next
  assume a: "v \<noteq> [] \<and> list_all P (butlast v) \<and> Q (last v)"
  then have "[last v] @ [] \<in> conc {[c] | c. Q c} {[]}"
    by (intro concI) auto
  then have "butlast v @ [last v] \<in> conc {w. list_all P w} (conc {[c] | c. Q c} {[]})"
    using a by (intro concI) simp_all
  then show "v \<in> conc {w. list_all P w} (conc {[c] | c. Q c} {[]})"
    using a by simp
qed

lemma label_char: "(alphanumeric c \<or> c = CHR ''-'') \<and> c \<noteq> CHR ''-'' \<longleftrightarrow> alphanumeric c"
  using dash_not_alphanumeric by blast

lemma lang_label_single: "[c] \<in> lang hostname_label \<longleftrightarrow> alphanumeric c"
proof -
  have "[] \<notin> conc {w. list_all P w} (conc {[c] | c. Q c} {[]})" for P Q :: "char \<Rightarrow> bool"
    by (simp add: middle_last)
  then show ?thesis
    by (simp add: lang_label_unfold conc_class_Cons)
qed

lemma lang_label_longer:
  assumes "t \<noteq> []"
  shows "c # t \<in> lang hostname_label \<longleftrightarrow>
     alphanumeric c \<and> list_all (\<lambda>c. alphanumeric c \<or> c = CHR ''-'') (butlast t)
     \<and> alphanumeric (last t)"
  using assms by (simp add: lang_label_unfold conc_class_Cons middle_last)

lemma list_all_butlast_last:
  assumes "t \<noteq> []"
  shows "list_all P t \<longleftrightarrow> list_all P (butlast t) \<and> P (last t)"
proof -
  have "list_all P (butlast t @ [last t]) \<longleftrightarrow> list_all P (butlast t) \<and> P (last t)"
    by simp
  then show ?thesis using assms by simp
qed

lemma lang_label: "l \<in> lang hostname_label \<longleftrightarrow> label_shape l"
proof (cases l)
  case Nil
  then show ?thesis by (simp add: lang_label_unfold label_shape_def conc_def)
next
  case (Cons c t)
  show ?thesis
  proof (cases "t = []")
    case True
    have "label_shape [c] \<longleftrightarrow> alphanumeric c"
      using label_char[of c] by (simp add: label_shape_def)
    then show ?thesis using Cons True by (simp add: lang_label_single)
  next
    case False
    have "label_shape (c # t) \<longleftrightarrow>
        ((alphanumeric c \<or> c = CHR ''-'') \<and> c \<noteq> CHR ''-'')
        \<and> list_all (\<lambda>c. alphanumeric c \<or> c = CHR ''-'') (butlast t)
        \<and> ((alphanumeric (last t) \<or> last t = CHR ''-'') \<and> last t \<noteq> CHR ''-'')"
      using False list_all_butlast_last[OF False, of "\<lambda>c. alphanumeric c \<or> c = CHR ''-''"]
      by (simp add: label_shape_def) blast
    then have "label_shape (c # t) \<longleftrightarrow>
        alphanumeric c \<and> list_all (\<lambda>c. alphanumeric c \<or> c = CHR ''-'') (butlast t)
        \<and> alphanumeric (last t)"
      by (simp only: label_char)
    then show ?thesis using Cons by (simp only: lang_label_longer[OF False])
  qed
qed

lemma lang_hostnameRegEx_unfold:
  "lang hostnameRegEx =
     conc (star (conc (Collect label_shape) {[CHR ''.'']})) (Collect label_shape)"
proof -
  have "lang hostname_label = Collect label_shape"
    using lang_label by blast
  then show ?thesis
    by (simp add: hostnameRegEx_def lang_chr)
qed

lemma labels_then_label:
  assumes "w \<in> star (conc (Collect label_shape) {[CHR ''.'']})" and "label_shape l"
  shows "list_all label_shape (segments (w @ l))"
  using assms
proof (induction rule: star.induct)
  case star_nil
  then show ?case by (simp add: segments_single label_no_dot)
next
  case (star_app u v)
  from star_app.hyps(1) obtain l1 where u: "u = l1 @ [CHR ''.'']" "label_shape l1"
    by (elim concE) auto
  have "segments ((u @ v) @ l) = l1 # segments (v @ l)"
    using segments_dot[of l1 "v @ l"] u label_no_dot by simp
  then show ?case using u(2) star_app.IH star_app.prems by simp
qed

lemma segments_labels:
  "list_all label_shape (segments s) \<Longrightarrow> s \<in> lang hostnameRegEx"
proof (induction "length s" arbitrary: s rule: less_induct)
  case less
  show ?case
  proof (cases s rule: segments_cases)
    case single
    then have "label_shape s" using less.prems by simp
    then have "[] @ s \<in> lang hostnameRegEx"
      unfolding lang_hostnameRegEx_unfold by (intro concI star.star_nil) simp
    then show ?thesis by simp
  next
    case (dot u v)
    then have u: "label_shape u" and v: "list_all label_shape (segments v)"
      using less.prems by simp_all
    have "length v < length s" using dot(1) by simp
    then have "v \<in> lang hostnameRegEx" using less.hyps v by blast
    then obtain w l where wl: "v = w @ l"
        "w \<in> star (conc (Collect label_shape) {[CHR ''.'']})" "label_shape l"
      unfolding lang_hostnameRegEx_unfold by (elim concE) auto
    have "u @ [CHR ''.''] \<in> conc (Collect label_shape) {[CHR ''.'']}"
      using u by (intro concI) simp_all
    then have "(u @ [CHR ''.'']) @ w \<in> star (conc (Collect label_shape) {[CHR ''.'']})"
      using wl(2) by (rule star.star_app)
    then have "((u @ [CHR ''.'']) @ w) @ l \<in> lang hostnameRegEx"
      unfolding lang_hostnameRegEx_unfold using wl(3) by (intro concI) simp_all
    then show ?thesis using dot(1) wl(1) by simp
  qed
qed

lemma hostname_lang_shape: "s \<in> lang hostnameRegEx \<longleftrightarrow> hostname_shape s"
proof
  assume "s \<in> lang hostnameRegEx"
  then obtain w l where "s = w @ l" "w \<in> star (conc (Collect label_shape) {[CHR ''.'']})"
      "label_shape l"
    unfolding lang_hostnameRegEx_unfold by (elim concE) auto
  then show "hostname_shape s"
    using labels_then_label by (simp add: hostname_shape_def)
next
  assume "hostname_shape s"
  then show "s \<in> lang hostnameRegEx"
    by (simp add: hostname_shape_def segments_labels)
qed

lemma matches_jwtRegEx: "matches jwtRegEx s \<longleftrightarrow> token_shape s"
  by (simp add: matches_lang jwt_token_shape)

lemma matches_hostnameRegEx: "matches hostnameRegEx s \<longleftrightarrow> hostname_shape s"
  by (simp add: matches_lang hostname_lang_shape)

lemma rejected_neq:
  "rejected fld w = rejected fld' w \<longleftrightarrow> fld = fld'"
proof
  assume "rejected fld w = rejected fld' w"
  then have "events (snd (rejected fld w)) = events (snd (rejected fld' w))" by simp
  then have "invalid_message fld = invalid_message fld'" by (simp add: rejected_def)
  then show "fld = fld'" by (cases fld; cases fld') (simp_all add: invalid_message_def)
qed simp

lemma validateCookies_cases:
  "validateCookies c w =
     (if malformed hex_digit_lower c XsrfField then rejected XsrfField w
      else if malformed hex_digit_lower c AccessTokenField then rejected AccessTokenField w
      else if malformed hex_digit_lower c DomainField then rejected DomainField w
      else (Returned (), w))"
  by (simp add: validateCookies_def malformed_def wellformed_def field_value_def rejected_def
      matches_uuidRegEx matches_jwtRegEx matches_hostnameRegEx
      thenp_def bindp_def emit_def exit_def ret_def)

section \<open>The credential validator\<close>

text \<open>
  C9, as amended. \<^verbatim>\<open>validateCookies\<close> rejects the session token (it prints the XSRF
  message and exits with code 1) exactly when the token is not a version-4 UUID in
  canonical form written with lower-case hexadecimal digits: five dash-separated groups
  of 8, 4, 4, 4 and 12 digits out of \<^verbatim>\<open>0-9a-f\<close>, version digit \<^verbatim>\<open>4\<close>, variant digit one
  of \<^verbatim>\<open>8\<close>, \<^verbatim>\<open>9\<close>, \<^verbatim>\<open>a\<close>, \<^verbatim>\<open>b\<close>. The expression has no \<^verbatim>\<open>i\<close> flag, so a token with an
  upper-case digit is rejected.
\<close>

theorem validateCookies_xsrf_iff_lowercase_uuid4:
  "validateCookies c w = rejected XsrfField w \<longleftrightarrow> \<not> uuid_v4_canonical hex_digit_lower (xsrf c)"
proof -
  have "malformed hex_digit_lower c XsrfField \<longleftrightarrow> \<not> uuid_v4_canonical hex_digit_lower (xsrf c)"
    by (simp add: malformed_def wellformed_def field_value_def)
  moreover have "rejected XsrfField w \<noteq> (Returned (), w)" by (simp add: rejected_def)
  ultimately show ?thesis
    by (simp add: validateCookies_cases rejected_neq)
qed

text \<open>
  C9 as stated fails: this token has the canonical version-4 shape, written with
  upper-case hexadecimal digits, and the validator rejects it.
\<close>

theorem uppercase_uuid4_rejected:
  "uuid_v4_canonical hex_digit_any_case upper_uuid \<and>
   validateCookies (login_answer\<lparr>xsrf := upper_uuid\<rparr>) (fresh None)
     = (Exited 1, \<lparr>disk = None, events = [ConsoleLog (Text ''Error: XSRF token is invalid.'')]\<rparr>)"
proof
  show "uuid_v4_canonical hex_digit_any_case upper_uuid"
    by (simp add: uuid_v4_canonical_def hex_digit_any_case_def upper_uuid_def)
  have "\<not> matches uuidRegEx upper_uuid" by code_simp
  then show "validateCookies (login_answer\<lparr>xsrf := upper_uuid\<rparr>) (fresh None)
     = (Exited 1, \<lparr>disk = None, events = [ConsoleLog (Text ''Error: XSRF token is invalid.'')]\<rparr>)"
    by (simp add: validateCookies_def fresh_def thenp_def bindp_def emit_def exit_def invalid_message_def)
qed

text \<open>The three messages differ, and the first malformed field in the order of the checks.\<close>

lemma invalid_message_inj: "invalid_message other = invalid_message fld \<longleftrightarrow> other = fld"
  by (cases fld; cases other) (simp_all add: invalid_message_def)

lemma find_malformed:
  "find (malformed hex c) check_order =
     (if malformed hex c XsrfField then Some XsrfField
      else if malformed hex c AccessTokenField then Some AccessTokenField
      else if malformed hex c DomainField then Some DomainField else None)"
  by (simp add: check_order_def)

text \<open>
  C6, as amended. A field is malformed when it does not have the shape the specification
  gives it, the session token counting as well-formed only when its hexadecimal digits are
  lower-case: the session token a canonical version-4 UUID, the access token three
  non-empty dot-separated segments of URL-safe characters, the domain dot-separated labels
  of letters, digits and hyphens with no hyphen at either end. The three expressions of
  the validator decide exactly these shapes. For a record with at least one malformed
  field, \<^verbatim>\<open>validateCookies\<close> prints the message of the first malformed field in the order
  XSRF token, access token, domain, and exits with code 1; the three messages are pairwise
  distinct; the outcome is the same for every record that agrees with this one on the
  fields checked up to and including that field, so no later field has a say; and the
  persisted record is as it was. The function has no assignment to its argument, which
  the model therefore passes by value.
\<close>

theorem validateCookies_first_malformed_field:
  assumes "malformed hex_digit_lower c f0"
  shows "\<exists>fld. find (malformed hex_digit_lower c) check_order = Some fld
           \<and> validateCookies c w = rejected fld w
           \<and> disk (snd (validateCookies c w)) = disk w
           \<and> (\<forall>other. invalid_message other = invalid_message fld \<longrightarrow> other = fld)
           \<and> (\<forall>c' :: 'a Credentials_scheme.
                 (\<forall>g \<in> set (checked_up_to fld). field_value c' g = field_value c g)
                 \<longrightarrow> validateCookies c' w = rejected fld w)"
proof -
  from assms have "find (malformed hex_digit_lower c) check_order \<noteq> None"
    by (cases f0) (simp_all add: find_malformed)
  then obtain fld where fld: "find (malformed hex_digit_lower c) check_order = Some fld"
    by blast
  have res: "validateCookies c w = rejected fld w"
    using fld by (auto simp: find_malformed validateCookies_cases split: if_splits)
  have "validateCookies c' w = rejected fld w"
    if "\<forall>g \<in> set (checked_up_to fld). field_value c' g = field_value c g"
    for c' :: "'a Credentials_scheme"
  proof -
    have agree: "malformed hex_digit_lower c' g = malformed hex_digit_lower c g"
      if "g \<in> set (checked_up_to fld)" for g
      using that \<open>\<forall>g \<in> set (checked_up_to fld). field_value c' g = field_value c g\<close>
      by (simp add: malformed_def)
    have "find (malformed hex_digit_lower c') check_order = Some fld"
    proof (cases fld)
      case XsrfField
      then show ?thesis
        using fld agree[of XsrfField]
        by (simp add: find_malformed checked_up_to_def check_order_def split: if_splits)
    next
      case AccessTokenField
      then show ?thesis
        using fld agree[of XsrfField] agree[of AccessTokenField]
        by (simp add: find_malformed checked_up_to_def check_order_def split: if_splits)
    next
      case DomainField
      then show ?thesis
        using fld agree[of XsrfField] agree[of AccessTokenField] agree[of DomainField]
        by (simp add: find_malformed checked_up_to_def check_order_def split: if_splits)
    qed
    then show ?thesis
      by (auto simp: find_malformed validateCookies_cases split: if_splits)
  qed
  then show ?thesis
    using fld res by (auto simp: invalid_message_inj rejected_def)
qed

text \<open>
  A record whose token is well-formed and whose access token and domain are both
  malformed: the access token is the field named.
\<close>

theorem validateCookies_first_malformed_field_witness:
  "malformed hex_digit_lower bad_answer DomainField
   \<and> find (malformed hex_digit_lower bad_answer) check_order = Some AccessTokenField
   \<and> validateCookies bad_answer (fresh None) = rejected AccessTokenField (fresh None)"
proof -
  have x: "\<not> malformed hex_digit_lower bad_answer XsrfField" by code_simp
  have a: "malformed hex_digit_lower bad_answer AccessTokenField" by code_simp
  have d: "malformed hex_digit_lower bad_answer DomainField" by code_simp
  have f: "find (malformed hex_digit_lower bad_answer) check_order = Some AccessTokenField"
    using x a by (simp add: find_malformed)
  from validateCookies_first_malformed_field[OF d, of "fresh None"] f d
  show ?thesis by auto
qed

text \<open>
  C6 as stated fails when an upper-case hexadecimal digit is a digit of the shape, as C9
  has it: the token of this record has the shape, its access token has not, so that the
  access token is its first malformed field; the validator names the XSRF token.
\<close>

theorem validateCookies_names_xsrf_for_uppercase_token:
  "\<not> malformed hex_digit_any_case upper_answer XsrfField
   \<and> malformed hex_digit_any_case upper_answer AccessTokenField
   \<and> find (malformed hex_digit_any_case upper_answer) check_order = Some AccessTokenField
   \<and> validateCookies upper_answer (fresh None) = rejected XsrfField (fresh None)
   \<and> rejected XsrfField (fresh None) \<noteq> rejected AccessTokenField (fresh None)"
proof -
  have x: "\<not> malformed hex_digit_any_case upper_answer XsrfField" by code_simp
  have a: "malformed hex_digit_any_case upper_answer AccessTokenField" by code_simp
  have l: "malformed hex_digit_lower upper_answer XsrfField" by code_simp
  have f: "find (malformed hex_digit_any_case upper_answer) check_order = Some AccessTokenField"
    using x a by (simp add: find_malformed)
  have v: "validateCookies upper_answer (fresh None) = rejected XsrfField (fresh None)"
    using l by (simp add: validateCookies_cases)
  have n: "rejected XsrfField (fresh None) \<noteq> rejected AccessTokenField (fresh None)"
    by (simp add: rejected_neq)
  from x a f v n show ?thesis by blast
qed

text \<open>
  At login the answers are validated before they are persisted: with a malformed field
  the run is that of the validator, and what is on disk stays.
\<close>

lemma askForCookies_malformed:
  assumes "malformed hex_digit_lower answer f0"
  shows "askForCookies_then e answer w = validateCookies answer w"
    and "disk (snd (askForCookies_then e answer w)) = disk w"
proof -
  have "\<exists>fld. validateCookies answer w = rejected fld w"
    using assms by (cases f0) (auto simp: validateCookies_cases)
  then obtain fld where r: "validateCookies answer w = rejected fld w" by blast
  then show "askForCookies_then e answer w = validateCookies answer w"
    by (simp add: askForCookies_then_def thenp_def bindp_def rejected_def)
  then show "disk (snd (askForCookies_then e answer w)) = disk w"
    using r by (simp add: rejected_def)
qed

section \<open>The resolver of the derived credentials\<close>

lemmas proc_defs = bindp_def thenp_def emit_def ret_def exit_def throw_def await_def
  http_get_def http_post_def

text \<open>
  C4. With a credential record on disk and a resource list in which no display name is
  \<^verbatim>\<open>retool_db\<close>, \<^verbatim>\<open>fetchDBCredentials\<close> requests the list, prints the not-found error and
  returns: nothing is written (no \<open>WriteCredentials\<close> event) and the record on disk is
  the one that was there.
\<close>

theorem fetchDBCredentials_not_found:
  assumes "disk w = Some c"
    and "getRequest e (''https://'' @ domain c @ ''/api/resources'') = Returned (Some rsp)"
    and "data rsp = Some d"
    and "resources d = Some rs"
    and "\<forall>r \<in> set rs. res_displayName r \<noteq> ''retool_db''"
  shows "fetchDBCredentials e w =
           (Returned (),
            w\<lparr>events := events w @
               [HttpGet (''https://'' @ domain c @ ''/api/resources''),
                ConsoleLog (Text (newline @ ''Error: Retool DB not found. Create one at https://''
                  @ domain c @ ''/resources''))]\<rparr>)
         \<and> disk (snd (fetchDBCredentials e w)) = Some c"
proof -
  have "filter (\<lambda>resource. res_displayName resource = ''retool_db'') rs = []"
    using assms(5) by (simp add: filter_empty_conv)
  then have "retool_dbs (Some rsp) = Some []"
    using assms(3,4) by (simp add: retool_dbs_def)
  then show ?thesis
    using assms(1,2)
    by (simp add: fetchDBCredentials_def getCredentials_def proc_defs)
qed

text \<open>One resource, named otherwise.\<close>

theorem fetchDBCredentials_not_found_witness:
  "fetchDBCredentials (resolver_env [other_db]) (fresh (Some stale_credentials)) =
     (Returned (),
      \<lparr>disk = Some stale_credentials,
       events = [HttpGet ''https://my-org.retool.com/api/resources'',
                 ConsoleLog (Text (newline
                   @ ''Error: Retool DB not found. Create one at https://my-org.retool.com/resources''))]\<rparr>)"
proof -
  have d: "domain stale_credentials = ''my-org.retool.com''"
    by (simp add: stale_credentials_def login_answer_def)
  have "fetchDBCredentials (resolver_env [other_db]) (fresh (Some stale_credentials)) =
           (Returned (),
            (fresh (Some stale_credentials))\<lparr>events := events (fresh (Some stale_credentials)) @
               [HttpGet (''https://'' @ domain stale_credentials @ ''/api/resources''),
                ConsoleLog (Text (newline @ ''Error: Retool DB not found. Create one at https://''
                  @ domain stale_credentials @ ''/resources''))]\<rparr>)
         \<and> disk (snd (fetchDBCredentials (resolver_env [other_db]) (fresh (Some stale_credentials)))) = Some stale_credentials"
    by (rule fetchDBCredentials_not_found[where rsp = "\<lparr>data = Some (no_data\<lparr>resources := Some [other_db]\<rparr>)\<rparr>"
          and d = "no_data\<lparr>resources := Some [other_db]\<rparr>" and rs = "[other_db]"])
      (simp_all add: fresh_def d resolver_env_def quiet_env_def no_data_def other_db_def)
  then show ?thesis by (simp add: fresh_def d)
qed


text \<open>What the resolver does once the filtered list has a head.\<close>

lemma fetchDBCredentials_resolved:
  assumes "disk w = Some c"
    and "getRequest e (''https://'' @ domain c @ ''/api/resources'') = Returned rsp"
    and "retool_dbs rsp = Some (db # others)"
    and "getRequest e (''https://'' @ domain c @ ''/api/grid/retooldb/'' @ res_name db
           @ ''?env=production'') = Returned grid"
    and "writable e"
  shows "fetchDBCredentials e w =
           (Returned (),
            w\<lparr>disk := Some (c\<lparr>retoolDBUuid := Some (res_name db),
                      gridId := Option.bind (grid_info grid) grid_id,
                      hasConnectionString := Some (has_connection_string grid)\<rparr>),
              events := events w @
               [HttpGet (''https://'' @ domain c @ ''/api/resources''),
                HttpGet (''https://'' @ domain c @ ''/api/grid/retooldb/'' @ res_name db
                  @ ''?env=production''),
                WriteCredentials (c\<lparr>retoolDBUuid := Some (res_name db),
                      gridId := Option.bind (grid_info grid) grid_id,
                      hasConnectionString := Some (has_connection_string grid)\<rparr>)]\<rparr>)"
  using assms
  by (simp add: fetchDBCredentials_def getCredentials_def persistCredentials_def proc_defs)

text \<open>
  C5. With a record on disk, exactly one resource named \<^verbatim>\<open>retool_db\<close>, the grid fetched
  and the file writable, the three derived fields are merged into the record read: the
  record written has the domain, the two tokens and the three profile fields of the
  record read; its \<^verbatim>\<open>retoolDBUuid\<close> is the name of the matched resource, its \<^verbatim>\<open>gridId\<close>
  the identifier of the fetched grid and its \<^verbatim>\<open>hasConnectionString\<close> is true exactly
  when the grid has a connection string and it is not empty. This holds for every record
  read, also one that held derived fields already.
\<close>

theorem fetchDBCredentials_one_match:
  assumes "disk w = Some c"
    and "getRequest e (''https://'' @ domain c @ ''/api/resources'') = Returned (Some rsp)"
    and "data rsp = Some d"
    and "resources d = Some rs"
    and "filter (\<lambda>r. res_displayName r = ''retool_db'') rs = [db]"
    and "getRequest e (''https://'' @ domain c @ ''/api/grid/retooldb/'' @ res_name db
           @ ''?env=production'') = Returned (Some grsp)"
    and "data grsp = Some gd"
    and "gridInfo gd = Some gi"
    and "writable e"
  shows "\<exists>c'. fetchDBCredentials e w =
           (Returned (),
            w\<lparr>disk := Some c',
              events := events w @
               [HttpGet (''https://'' @ domain c @ ''/api/resources''),
                HttpGet (''https://'' @ domain c @ ''/api/grid/retooldb/'' @ res_name db
                  @ ''?env=production''),
                WriteCredentials c']\<rparr>)
         \<and> domain c' = domain c \<and> xsrf c' = xsrf c \<and> accessToken c' = accessToken c
         \<and> firstName c' = firstName c \<and> lastName c' = lastName c \<and> email c' = email c
         \<and> retoolDBUuid c' = Some (res_name db)
         \<and> gridId c' = grid_id gi
         \<and> hasConnectionString c' =
              Some (grid_connectionString gi \<noteq> None \<and> grid_connectionString gi \<noteq> Some [])"
proof -
  have m: "retool_dbs (Some rsp) = Some [db]"
    using assms(3,4,5) by (simp add: retool_dbs_def)
  have g: "grid_info (Some grsp) = Some gi"
    using assms(7,8) by (simp add: grid_info_def)
  have h: "has_connection_string (Some grsp)
      = (grid_connectionString gi \<noteq> None \<and> grid_connectionString gi \<noteq> Some [])"
    using g by (cases "grid_connectionString gi") (simp_all add: has_connection_string_def)
  let ?c' = "c\<lparr>retoolDBUuid := Some (res_name db),
                 gridId := Option.bind (grid_info (Some grsp)) grid_id,
                 hasConnectionString := Some (has_connection_string (Some grsp))\<rparr>"
  show ?thesis
    using fetchDBCredentials_resolved[OF assms(1,2) m assms(6,9)] g h
    by (intro exI[of _ ?c']) simp
qed

text \<open>A first resolution, on the record of a fresh login.\<close>

theorem fetchDBCredentials_one_match_witness:
  "fetchDBCredentials (resolver_env [other_db, retool_db_1]) (fresh (Some login_answer)) =
     (Returned (),
      \<lparr>disk = Some (login_answer\<lparr>retoolDBUuid := Some ''9f3a'', gridId := Some ''grid-new'',
                hasConnectionString := Some True\<rparr>),
       events = [HttpGet ''https://my-org.retool.com/api/resources'',
                 HttpGet ''https://my-org.retool.com/api/grid/retooldb/9f3a?env=production'',
                 WriteCredentials (login_answer\<lparr>retoolDBUuid := Some ''9f3a'',
                   gridId := Some ''grid-new'', hasConnectionString := Some True\<rparr>)]\<rparr>)"
proof -
  have d: "domain login_answer = ''my-org.retool.com''"
    by (simp add: login_answer_def)
  obtain c' where
    r: "fetchDBCredentials (resolver_env [other_db, retool_db_1]) (fresh (Some login_answer)) =
           (Returned (),
            (fresh (Some login_answer))\<lparr>disk := Some c',
              events := events (fresh (Some login_answer)) @
               [HttpGet (''https://'' @ domain login_answer @ ''/api/resources''),
                HttpGet (''https://'' @ domain login_answer @ ''/api/grid/retooldb/''
                  @ res_name retool_db_1 @ ''?env=production''),
                WriteCredentials c']\<rparr>)"
    and f: "domain c' = domain login_answer" "xsrf c' = xsrf login_answer"
      "accessToken c' = accessToken login_answer" "firstName c' = firstName login_answer"
      "lastName c' = lastName login_answer" "email c' = email login_answer"
      "retoolDBUuid c' = Some (res_name retool_db_1)" "gridId c' = grid_id grid_of_9f3a"
      "hasConnectionString c' = Some (grid_connectionString grid_of_9f3a \<noteq> None
          \<and> grid_connectionString grid_of_9f3a \<noteq> Some [])"
    using fetchDBCredentials_one_match[of "fresh (Some login_answer)" login_answer
        "resolver_env [other_db, retool_db_1]"
        "\<lparr>data = Some (no_data\<lparr>resources := Some [other_db, retool_db_1]\<rparr>)\<rparr>"
        "no_data\<lparr>resources := Some [other_db, retool_db_1]\<rparr>" "[other_db, retool_db_1]"
        retool_db_1 "\<lparr>data = Some (no_data\<lparr>gridInfo := Some grid_of_9f3a\<rparr>)\<rparr>"
        "no_data\<lparr>gridInfo := Some grid_of_9f3a\<rparr>" grid_of_9f3a]
    by (auto simp: fresh_def d resolver_env_def quiet_env_def no_data_def other_db_def
        retool_db_1_def)
  have "c' = login_answer\<lparr>retoolDBUuid := Some ''9f3a'', gridId := Some ''grid-new'',
                hasConnectionString := Some True\<rparr>"
    using f by (cases c') (simp add: login_answer_def retool_db_1_def grid_of_9f3a_def)
  then show ?thesis using r by (simp add: fresh_def d retool_db_1_def)
qed

text \<open>
  A record resolved before: its \<^verbatim>\<open>gridId\<close> and \<^verbatim>\<open>retoolDBUuid\<close> take the fetched values.
\<close>

lemma fetchDBCredentials_refreshes_derived:
  "gridId stale_credentials = Some ''grid-old''
   \<and> retoolDBUuid stale_credentials = Some ''db-old''
   \<and> map_option gridId
        (disk (snd (fetchDBCredentials (resolver_env [retool_db_1]) (fresh (Some stale_credentials)))))
      = Some (Some ''grid-new'')
   \<and> map_option retoolDBUuid
        (disk (snd (fetchDBCredentials (resolver_env [retool_db_1]) (fresh (Some stale_credentials)))))
      = Some (Some ''9f3a'')"
  by (simp add: fetchDBCredentials_def getCredentials_def persistCredentials_def proc_defs
      fresh_def stale_credentials_def login_answer_def resolver_env_def quiet_env_def
      retool_dbs_def retool_db_1_def no_data_def grid_info_def grid_of_9f3a_def)

text \<open>The first element that satisfies a predicate heads the filtered list.\<close>

lemma find_filter:
  "find P xs = Some x \<Longrightarrow> \<exists>others. filter P xs = x # others"
  by (induction xs) (auto split: if_splits)

text \<open>
  C10. With two or more resources named \<^verbatim>\<open>retool_db\<close>, the resolver reports no error:
  the grid it fetches is that of the first of them in the order of the list, and the
  \<^verbatim>\<open>retoolDBUuid\<close> it writes is the name of that resource.
\<close>

theorem fetchDBCredentials_first_of_many:
  assumes "disk w = Some c"
    and "getRequest e (''https://'' @ domain c @ ''/api/resources'') = Returned (Some rsp)"
    and "data rsp = Some d"
    and "resources d = Some rs"
    and "2 \<le> length (filter (\<lambda>r. res_displayName r = ''retool_db'') rs)"
    and "find (\<lambda>r. res_displayName r = ''retool_db'') rs = Some db"
    and "getRequest e (''https://'' @ domain c @ ''/api/grid/retooldb/'' @ res_name db
           @ ''?env=production'') = Returned grid"
    and "writable e"
  shows "\<exists>c'. fetchDBCredentials e w =
           (Returned (),
            w\<lparr>disk := Some c',
              events := events w @
               [HttpGet (''https://'' @ domain c @ ''/api/resources''),
                HttpGet (''https://'' @ domain c @ ''/api/grid/retooldb/'' @ res_name db
                  @ ''?env=production''),
                WriteCredentials c']\<rparr>)
         \<and> retoolDBUuid c' = Some (res_name db)"
proof -
  obtain others where "filter (\<lambda>r. res_displayName r = ''retool_db'') rs = db # others"
    using find_filter[OF assms(6)] by blast
  then have m: "retool_dbs (Some rsp) = Some (db # others)"
    using assms(3,4) by (simp add: retool_dbs_def)
  let ?c' = "c\<lparr>retoolDBUuid := Some (res_name db),
                 gridId := Option.bind (grid_info grid) grid_id,
                 hasConnectionString := Some (has_connection_string grid)\<rparr>"
  show ?thesis
    using fetchDBCredentials_resolved[OF assms(1,2) m assms(7,8)]
    by (intro exI[of _ ?c']) simp
qed

text \<open>Two resources named \<^verbatim>\<open>retool_db\<close> after one named otherwise.\<close>

theorem fetchDBCredentials_first_of_many_witness:
  "map_option retoolDBUuid
     (disk (snd (fetchDBCredentials (resolver_env [other_db, retool_db_1, retool_db_2])
        (fresh (Some login_answer)))))
     = Some (Some ''9f3a'')
   \<and> fst (fetchDBCredentials (resolver_env [other_db, retool_db_1, retool_db_2])
        (fresh (Some login_answer))) = Returned ()"
proof -
  have d: "domain login_answer = ''my-org.retool.com''"
    by (simp add: login_answer_def)
  obtain c' where
    r: "fetchDBCredentials (resolver_env [other_db, retool_db_1, retool_db_2]) (fresh (Some login_answer)) =
           (Returned (),
            (fresh (Some login_answer))\<lparr>disk := Some c',
              events := events (fresh (Some login_answer)) @
               [HttpGet (''https://'' @ domain login_answer @ ''/api/resources''),
                HttpGet (''https://'' @ domain login_answer @ ''/api/grid/retooldb/''
                  @ res_name retool_db_1 @ ''?env=production''),
                WriteCredentials c']\<rparr>)"
    and f: "retoolDBUuid c' = Some (res_name retool_db_1)"
    using fetchDBCredentials_first_of_many[of "fresh (Some login_answer)" login_answer
        "resolver_env [other_db, retool_db_1, retool_db_2]"
        "\<lparr>data = Some (no_data\<lparr>resources := Some [other_db, retool_db_1, retool_db_2]\<rparr>)\<rparr>"
        "no_data\<lparr>resources := Some [other_db, retool_db_1, retool_db_2]\<rparr>"
        "[other_db, retool_db_1, retool_db_2]"
        retool_db_1 "Some \<lparr>data = Some (no_data\<lparr>gridInfo := Some grid_of_9f3a\<rparr>)\<rparr>"]
    by (auto simp: fresh_def d resolver_env_def quiet_env_def no_data_def other_db_def
        retool_db_1_def retool_db_2_def)
  show ?thesis using r f by (simp add: retool_db_1_def)
qed

section \<open>Deleting an app by name\<close>

lemma getAppsAndFolders_returned:
  assumes "getRequest e (origin cr @ ''/api/pages?mobileAppsOnly=false'') = Returned rsp"
  shows "getAppsAndFolders e cr w =
     (Returned (apps_outside_trash rsp, response_folders rsp),
      w\<lparr>events := events w @ [SpinnerStart ''Fetching all apps.'',
          HttpGet (origin cr @ ''/api/pages?mobileAppsOnly=false''), SpinnerStop]\<rparr>)"
  using assms by (simp add: getAppsAndFolders_def proc_defs)

text \<open>
  C3, as amended. When the list of apps is fetched, any confirmation asked for is given,
  and the number of apps outside the trash with the given name is not one (none, or two or
  more, or no list in the response), \<^verbatim>\<open>deleteApp\<close> prints one and the same message on the
  error stream, \<^verbatim>\<open>0 or >1 Apps named <name> found.\<close>, sends no delete request and exits
  with code 1. The message does not say how many apps matched, and the two cases are not
  told apart.
\<close>

theorem deleteApp_not_unique:
  assumes "getRequest e (origin cr @ ''/api/pages?mobileAppsOnly=false'') = Returned rsp"
    and "length (matching_apps rsp appName) \<noteq> 1"
    and "confirmDeletion \<longrightarrow> confirm e (''Are you sure you want to delete '' @ appName @ ''?'')"
  shows "deleteApp e appName cr confirmDeletion fmt w =
     (Exited 1,
      w\<lparr>events := events w
          @ (if confirmDeletion
             then [Prompt (''Are you sure you want to delete '' @ appName @ ''?'')] else [])
          @ [SpinnerStart ''Fetching all apps.'',
             HttpGet (origin cr @ ''/api/pages?mobileAppsOnly=false''), SpinnerStop,
             ConsoleError (Text (''0 or >1 Apps named '' @ appName @ '' found. '' @ emoji_sweat))]\<rparr>)"
proof -
  have "(case map_option (filter (\<lambda>app. app_name app = appName)) (apps_outside_trash rsp) of
           Some [app] \<Rightarrow> f app | _ \<Rightarrow> g) = g" for f :: "App \<Rightarrow> unit proc" and g :: "unit proc"
    using assms(2) by (auto simp: matching_apps_def split: option.splits list.splits)
  then show ?thesis
    using assms(3)
    by (cases confirmDeletion)
      (simp_all add: deleteApp_def getAppsAndFolders_returned[OF assms(1)]
        not_unique_message_def proc_defs)
qed

text \<open>Three apps of the same name, the deletion confirmed.\<close>

theorem deleteApp_not_unique_witness:
  "deleteApp (apps_env [app_named ''ghost'' ''1'', app_named ''ghost'' ''2'', app_named ''ghost'' ''3''])
      ''ghost'' session True Json (fresh None)
     = (Exited 1,
        \<lparr>disk = None,
         events = [Prompt ''Are you sure you want to delete ghost?'',
           SpinnerStart ''Fetching all apps.'',
           HttpGet ''https://my-org.retool.com/api/pages?mobileAppsOnly=false'', SpinnerStop,
           ConsoleError (Text (''0 or >1 Apps named ghost found. '' @ emoji_sweat))]\<rparr>)"
  using deleteApp_not_unique[of
      "apps_env [app_named ''ghost'' ''1'', app_named ''ghost'' ''2'', app_named ''ghost'' ''3'']"
      session
      "Some \<lparr>data = Some (no_data\<lparr>pages := Some [app_named ''ghost'' ''1'',
          app_named ''ghost'' ''2'', app_named ''ghost'' ''3''], folders := Some []\<rparr>)\<rparr>"
      "''ghost''" True Json "fresh None"]
  by (simp add: apps_env_def quiet_env_def session_def Credentials.extend_def
      SessionCredentials.fields_def login_answer_def fresh_def no_data_def app_named_def
      matching_apps_def apps_outside_trash_def response_pages_def response_folders_def
      trash_folder_id_def)

text \<open>
  C3 as stated fails: with two apps named \<^verbatim>\<open>ghost\<close> the run is the very run with none,
  and its message has no \<^verbatim>\<open>2\<close> in it.
\<close>

theorem deleteApp_same_error_for_none_and_two:
  "length (matching_apps
      (Some \<lparr>data = Some (no_data\<lparr>pages := Some [app_named ''ghost'' ''1'', app_named ''ghost'' ''2''],
                 folders := Some []\<rparr>)\<rparr>) ''ghost'') = 2
   \<and> deleteApp (apps_env [app_named ''ghost'' ''1'', app_named ''ghost'' ''2'']) ''ghost'' session
        False Default (fresh None)
      = (Exited 1,
         \<lparr>disk = None,
          events = [SpinnerStart ''Fetching all apps.'',
            HttpGet ''https://my-org.retool.com/api/pages?mobileAppsOnly=false'', SpinnerStop,
            ConsoleError (Text (''0 or >1 Apps named ghost found. '' @ emoji_sweat))]\<rparr>)
   \<and> deleteApp (apps_env []) ''ghost'' session False Default (fresh None)
      = deleteApp (apps_env [app_named ''ghost'' ''1'', app_named ''ghost'' ''2'']) ''ghost'' session
          False Default (fresh None)
   \<and> CHR ''2'' \<notin> set (''0 or >1 Apps named ghost found. '' @ emoji_sweat)"
  by (simp add: deleteApp_def getAppsAndFolders_def proc_defs apps_env_def quiet_env_def
      session_def Credentials.extend_def SessionCredentials.fields_def login_answer_def
      fresh_def no_data_def app_named_def apps_outside_trash_def response_pages_def
      response_folders_def trash_folder_id_def matching_apps_def not_unique_message_def
      emoji_sweat_def)

section \<open>The scaffold command\<close>

text \<open>The two functions of \<^verbatim>\<open>utils/apps.ts\<close> ask nothing and invoke no step of their own.\<close>

lemma deleteApp_steps:
  "steps_of (events (snd (deleteApp e n cr False fmt w))) = steps_of (events w)"
  by (auto simp: deleteApp_def getAppsAndFolders_def proc_defs response_of_def steps_of_def
      is_step_def split: outcome.splits option.splits list.splits OutputFormat.splits prod.splits)

lemma createAppForTable_steps:
  "steps_of (events (snd (createAppForTable e a t c cr fmt w))) = steps_of (events w)"
  by (auto simp: createAppForTable_def proc_defs response_of_def steps_of_def
      is_step_def split: outcome.splits option.splits list.splits OutputFormat.splits prod.splits)


lemma call_in_steps: "Call c \<in> set evs \<longleftrightarrow> Call c \<in> set (steps_of evs)"
  by (simp add: steps_of_def is_step_def)

lemma createAppForTable_calls:
  "Call c \<in> set (events (snd (createAppForTable e a t col cr fmt w))) \<longleftrightarrow> Call c \<in> set (events w)"
  by (simp add: call_in_steps[of c "events (snd (createAppForTable e a t col cr fmt w))"]
      createAppForTable_steps call_in_steps[symmetric])

text \<open>With a name to delete and the credentials at hand, the handler runs the delete pipeline.\<close>

lemma handler_delete:
  assumes "argv_delete a = Some n" and "n \<noteq> []"
    and "getAndVerifyCredentialsWithRetoolDB e = Returned cr"
  shows "handler e a w =
     scaffold_delete e cr n
       (w\<lparr>events := events w @ [Call GetAndVerifyCredentialsWithRetoolDB, Detached LogDAU]\<rparr>)"
  using assms by (simp add: handler_def step_def proc_defs falsy_def)

text \<open>
  C8. In the delete pipeline, when the user declines the confirmation the process exits
  with code 0 and the trace ends at the prompt: no \<open>DeleteTable\<close>, \<open>DeleteWorkflow\<close> or
  \<open>DeleteApp\<close> is invoked. When the confirmation is given and \<^verbatim>\<open>deleteTable\<close> does not
  return (the process exits in it, or it throws), the run ends as \<^verbatim>\<open>deleteTable\<close> ended
  and the trace ends at its invocation: neither \<open>DeleteWorkflow\<close> nor \<open>DeleteApp\<close> is
  invoked.
\<close>

theorem scaffold_delete_declined_or_table_failed:
  assumes "argv_delete a = Some n" and "n \<noteq> []"
    and "getAndVerifyCredentialsWithRetoolDB e = Returned cr"
  shows "(\<not> confirm e (''Are you sure you want to delete '' @ n @ '' table, CRUD workflow and app?'')
            \<longrightarrow> handler e a w =
                  (Exited 0,
                   w\<lparr>events := events w @
                     [Call GetAndVerifyCredentialsWithRetoolDB, Detached LogDAU,
                      Prompt (''Are you sure you want to delete '' @ n
                        @ '' table, CRUD workflow and app?'')]\<rparr>))
       \<and> (confirm e (''Are you sure you want to delete '' @ n @ '' table, CRUD workflow and app?'')
            \<and> deleteTable e n \<noteq> Returned ()
            \<longrightarrow> handler e a w =
                  (deleteTable e n,
                   w\<lparr>events := events w @
                     [Call GetAndVerifyCredentialsWithRetoolDB, Detached LogDAU,
                      Prompt (''Are you sure you want to delete '' @ n
                        @ '' table, CRUD workflow and app?''),
                      Call (DeleteTable n False)]\<rparr>))"
proof (intro conjI impI)
  assume "\<not> confirm e (''Are you sure you want to delete '' @ n @ '' table, CRUD workflow and app?'')"
  then show "handler e a w =
                  (Exited 0,
                   w\<lparr>events := events w @
                     [Call GetAndVerifyCredentialsWithRetoolDB, Detached LogDAU,
                      Prompt (''Are you sure you want to delete '' @ n
                        @ '' table, CRUD workflow and app?'')]\<rparr>)"
    by (simp add: handler_delete[OF assms] scaffold_delete_def delete_prompt_def proc_defs)
next
  assume "confirm e (''Are you sure you want to delete '' @ n @ '' table, CRUD workflow and app?'')
            \<and> deleteTable e n \<noteq> Returned ()"
  then show "handler e a w =
                  (deleteTable e n,
                   w\<lparr>events := events w @
                     [Call GetAndVerifyCredentialsWithRetoolDB, Detached LogDAU,
                      Prompt (''Are you sure you want to delete '' @ n
                        @ '' table, CRUD workflow and app?''),
                      Call (DeleteTable n False)]\<rparr>)"
    by (cases "deleteTable e n")
      (simp_all add: handler_delete[OF assms] scaffold_delete_def delete_prompt_def step_def
        proc_defs)
qed

text \<open>
  C2, as amended. The scaffold command declares no force flag and its handler reads none:
  a run with the flag is the run without it. In the delete pipeline the confirmation is
  always asked for, before any deletion; once it is given and \<^verbatim>\<open>deleteTable\<close> and
  \<^verbatim>\<open>deleteWorkflow\<close> return, the steps are the prompt, then \<open>DeleteTable\<close> of the name,
  \<open>DeleteWorkflow\<close> of the name followed by \<^verbatim>\<open> CRUD Workflow\<close> and \<open>DeleteApp\<close> of the name
  followed by \<^verbatim>\<open> App\<close>, in that order, none of the three asking for a confirmation of
  its own.
\<close>

theorem scaffold_delete_confirms_whatever_force:
  assumes "argv_delete a = Some n" and "n \<noteq> []"
    and "getAndVerifyCredentialsWithRetoolDB e = Returned cr"
  shows "handler e (a\<lparr>argv_force := b\<rparr>) w = handler e a w
       \<and> take 3 (steps_of (events (snd (handler e a (fresh d))))) =
            [Call GetAndVerifyCredentialsWithRetoolDB, Detached LogDAU,
             Prompt (''Are you sure you want to delete '' @ n @ '' table, CRUD workflow and app?'')]
       \<and> (confirm e (''Are you sure you want to delete '' @ n @ '' table, CRUD workflow and app?'')
            \<and> deleteTable e n = Returned ()
            \<and> deleteWorkflow e (n @ '' CRUD Workflow'') = Returned ()
            \<longrightarrow> steps_of (events (snd (handler e a (fresh d)))) =
                  [Call GetAndVerifyCredentialsWithRetoolDB, Detached LogDAU,
                   Prompt (''Are you sure you want to delete '' @ n
                     @ '' table, CRUD workflow and app?''),
                   Call (DeleteTable n False),
                   Call (DeleteWorkflow (n @ '' CRUD Workflow'') False),
                   Call (DeleteApp (n @ '' App'') False)])"
proof (intro conjI impI)
  show "handler e (a\<lparr>argv_force := b\<rparr>) w = handler e a w"
  proof -
    have csv: "fromCSV e (a\<lparr>argv_force := b\<rparr>) cr' fs = fromCSV e a cr' fs" for cr' fs
      by (induction fs) simp_all
    show ?thesis
      by (cases "falsy (argv_delete a)"; cases "argv_f a")
        (simp_all add: handler_def scaffold_create_def csv)
  qed
next
  show "take 3 (steps_of (events (snd (handler e a (fresh d))))) =
            [Call GetAndVerifyCredentialsWithRetoolDB, Detached LogDAU,
             Prompt (''Are you sure you want to delete '' @ n @ '' table, CRUD workflow and app?'')]"
    by (cases "deleteTable e n"; cases "deleteWorkflow e (n @ '' CRUD Workflow'')")
      (simp_all add: handler_delete[OF assms] scaffold_delete_def delete_prompt_def step_def
        proc_defs fresh_def deleteApp_steps, simp_all add: steps_of_def is_step_def)
next
  assume "confirm e (''Are you sure you want to delete '' @ n @ '' table, CRUD workflow and app?'')
            \<and> deleteTable e n = Returned ()
            \<and> deleteWorkflow e (n @ '' CRUD Workflow'') = Returned ()"
  then show "steps_of (events (snd (handler e a (fresh d)))) =
                  [Call GetAndVerifyCredentialsWithRetoolDB, Detached LogDAU,
                   Prompt (''Are you sure you want to delete '' @ n
                     @ '' table, CRUD workflow and app?''),
                   Call (DeleteTable n False),
                   Call (DeleteWorkflow (n @ '' CRUD Workflow'') False),
                   Call (DeleteApp (n @ '' App'') False)]"
    by (simp add: handler_delete[OF assms] scaffold_delete_def delete_prompt_def step_def
        proc_defs fresh_def deleteApp_steps, simp add: steps_of_def is_step_def)
qed


text \<open>The definitions of the example inputs.\<close>

lemmas example_defs = apps_env_def quiet_env_def session_def Credentials.extend_def
  SessionCredentials.fields_def login_answer_def fresh_def no_data_def app_named_def
  orders_argv_def delete_orders_argv_def declining_def table_failing_def workflow_failing_def

text \<open>Deleting \<^verbatim>\<open>orders\<close>: the user declines; the user accepts and the table step exits.\<close>

theorem scaffold_delete_declined_or_table_failed_witness:
  "handler (declining (apps_env [])) (delete_orders_argv\<lparr>argv_force := False\<rparr>) (fresh None) =
     (Exited 0,
      \<lparr>disk = None,
       events = [Call GetAndVerifyCredentialsWithRetoolDB, Detached LogDAU,
         Prompt ''Are you sure you want to delete orders table, CRUD workflow and app?'']\<rparr>)
   \<and> handler (table_failing (apps_env [])) (delete_orders_argv\<lparr>argv_force := False\<rparr>) (fresh None) =
     (Exited 1,
      \<lparr>disk = None,
       events = [Call GetAndVerifyCredentialsWithRetoolDB, Detached LogDAU,
         Prompt ''Are you sure you want to delete orders table, CRUD workflow and app?'',
         Call (DeleteTable ''orders'' False)]\<rparr>)"
  using scaffold_delete_declined_or_table_failed[of "delete_orders_argv\<lparr>argv_force := False\<rparr>"
      "''orders''" "declining (apps_env [])" session "fresh None"]
    scaffold_delete_declined_or_table_failed[of "delete_orders_argv\<lparr>argv_force := False\<rparr>"
      "''orders''" "table_failing (apps_env [])" session "fresh None"]
  by (simp add: example_defs)

text \<open>
  C2 as stated fails: with the force flag set the prompt is shown all the same, and when
  the user declines it nothing is deleted.
\<close>

theorem scaffold_delete_force_still_asks:
  "argv_force delete_orders_argv
   \<and> handler (declining (apps_env [app_named ''orders App'' ''7''])) delete_orders_argv (fresh None) =
     (Exited 0,
      \<lparr>disk = None,
       events = [Call GetAndVerifyCredentialsWithRetoolDB, Detached LogDAU,
         Prompt ''Are you sure you want to delete orders table, CRUD workflow and app?'']\<rparr>)"
  by (simp add: handler_def scaffold_delete_def delete_prompt_def step_def falsy_def proc_defs
      example_defs)

text \<open>Deleting \<^verbatim>\<open>orders\<close> with the force flag set, the user accepting.\<close>

theorem scaffold_delete_confirms_whatever_force_witness:
  "steps_of (events (snd (handler (apps_env [app_named ''orders App'' ''7'']) delete_orders_argv
      (fresh None)))) =
     [Call GetAndVerifyCredentialsWithRetoolDB, Detached LogDAU,
      Prompt ''Are you sure you want to delete orders table, CRUD workflow and app?'',
      Call (DeleteTable ''orders'' False),
      Call (DeleteWorkflow ''orders CRUD Workflow'' False),
      Call (DeleteApp ''orders App'' False)]"
  using scaffold_delete_confirms_whatever_force[of delete_orders_argv "''orders''"
      "apps_env [app_named ''orders App'' ''7'']" session True "fresh None" None]
  by (simp add: example_defs)

text \<open>
  C1. The run of the scenario: table \<^verbatim>\<open>orders\<close>, columns \<^verbatim>\<open>id\<close> and \<^verbatim>\<open>name\<close>, workflow
  enabled, every step and the detached call succeeding. The search column handed to \<^verbatim>\<open>createAppForTable\<close>, and
  sent in the request, is the first column given, \<^verbatim>\<open>id\<close>; the claim has \<^verbatim>\<open>name\<close>, the
  first column that is not the identifier.
\<close>

theorem scaffold_create_orders_searches_id:
  "handler (apps_env []) orders_argv (fresh None) =
     (Returned (),
      \<lparr>disk = None,
       events = [Call GetAndVerifyCredentialsWithRetoolDB, Detached LogDAU,
         Call (CreateTable ''orders'' [''id'', ''name'']),
         Detached (InsertSampleData ''orders''),
         ConsoleLog (Text newline),
         Call (GenerateCRUDWorkflow ''orders''),
         ConsoleLog (Text newline),
         Call (CreateAppForTable ''orders App'' ''orders'' ''id''),
         SpinnerStart ''Creating App'',
         HttpPost ''https://my-org.retool.com/api/pages/autogeneratePage''
           (AutogeneratePage ''orders App'' (Some ''9f3a'') ''orders'' ''id''),
         SpinnerStop,
         ConsoleLog (Text (''Successfully created an App. '' @ emoji_party)),
         ConsoleLog (Text ''View in browser: https://my-org.retool.com/editor/p-1'')]\<rparr>)"
  by (simp add: handler_def scaffold_create_def createAppForTable_def searchColumnName_def
      insertSampleData_def detached_def struck_def outlived_def template_def
      response_of_def step_def falsy_def proc_defs example_defs)

text \<open>With neither a name to delete nor CSV files, the handler runs the create pipeline.\<close>

lemma outlived_events: "events (snd (outlived doom m w)) = events (snd (m w))"
  by (simp add: outlived_def split: prod.splits outcome.splits option.splits)

lemma handler_create:
  assumes "falsy (argv_delete a)" and "argv_f a = None"
    and "getAndVerifyCredentialsWithRetoolDB e = Returned cr"
  shows "handler e a w =
     scaffold_create e a cr
       (w\<lparr>events := events w @ [Call GetAndVerifyCredentialsWithRetoolDB, Detached LogDAU]\<rparr>)"
  using assms by (simp add: handler_def step_def proc_defs)

text \<open>
  In the create pipeline, whenever the column list given is not empty, the steps before
  it return and the detached call does not fail, \<^verbatim>\<open>createAppForTable\<close> is invoked with
  the first column of the list as the search column, whether or not it is the identifier.
\<close>

lemma searchColumnName_Cons: "searchColumnName (c # cs) = c"
  by (simp add: searchColumnName_def)

lemma scaffold_create_search_column:
  assumes "falsy (argv_delete a)" and "argv_f a = None"
    and "getAndVerifyCredentialsWithRetoolDB e = Returned cr"
    and "argv_name a = Some tn" and "tn \<noteq> []"
    and "argv_columns a = Some (c # cs)"
    and "createTable e tn (c # cs) = Returned ()"
    and "argv_no_workflow a \<or> generateCRUDWorkflow e tn = Returned ()"
    and "detached (insertSampleData e tn cr) = None"
  shows "Call (CreateAppForTable (tn @ '' App'') tn c)
           \<in> set (events (snd (handler e a (fresh d))))"
  using assms(4-9)
  unfolding handler_create[OF assms(1-3)]
  by (auto simp: scaffold_create_def step_def proc_defs fresh_def createAppForTable_calls
      searchColumnName_Cons outlived_events struck_def)

text \<open>
  C7. In the create pipeline, whatever the collaborators and the detached call do: with
  the \<^verbatim>\<open>no-workflow\<close> flag set, \<^verbatim>\<open>generateCRUDWorkflow\<close> is never invoked; and when it is
  invoked and does not return (the process exits in it, or it throws),
  \<^verbatim>\<open>createAppForTable\<close> is never invoked.
\<close>

theorem scaffold_create_workflow_gate:
  assumes "falsy (argv_delete a)" and "argv_f a = None"
  shows "(argv_no_workflow a \<longrightarrow>
            (\<forall>n. Call (GenerateCRUDWorkflow n) \<notin> set (events (snd (handler e a (fresh d))))))
       \<and> (\<forall>n. Call (GenerateCRUDWorkflow n) \<in> set (events (snd (handler e a (fresh d))))
              \<and> generateCRUDWorkflow e n \<noteq> Returned ()
            \<longrightarrow> (\<forall>x y z. Call (CreateAppForTable x y z)
                    \<notin> set (events (snd (handler e a (fresh d))))))"
proof (cases "getAndVerifyCredentialsWithRetoolDB e")
  case (Returned cr)
  show ?thesis
    unfolding handler_create[OF assms Returned]
    by (auto simp: scaffold_create_def step_def proc_defs fresh_def createAppForTable_calls
        outlived_events struck_def
        split: outcome.splits option.splits if_splits prod.splits)
next
  case (Exited k)
  then show ?thesis by (simp add: handler_def step_def proc_defs fresh_def)
next
  case Threw
  then show ?thesis by (simp add: handler_def step_def proc_defs fresh_def)
qed


text \<open>
  Creating \<^verbatim>\<open>orders\<close> without the workflow; creating it with a workflow step that exits.
\<close>

theorem scaffold_create_workflow_gate_witness:
  "(\<forall>n. Call (GenerateCRUDWorkflow n)
       \<notin> set (events (snd (handler (apps_env []) (orders_argv\<lparr>argv_no_workflow := True\<rparr>)
                (fresh None)))))
   \<and> Call (GenerateCRUDWorkflow ''orders'')
       \<in> set (events (snd (handler (workflow_failing (apps_env [])) orders_argv (fresh None))))
   \<and> (\<forall>x y z. Call (CreateAppForTable x y z)
       \<notin> set (events (snd (handler (workflow_failing (apps_env [])) orders_argv (fresh None)))))"
proof -
  have in_tr: "Call (GenerateCRUDWorkflow ''orders'')
       \<in> set (events (snd (handler (workflow_failing (apps_env [])) orders_argv (fresh None))))"
    by (simp add: handler_def scaffold_create_def step_def falsy_def proc_defs example_defs
        outlived_events struck_def insertSampleData_def detached_def template_def
        response_of_def)
  have fails: "generateCRUDWorkflow (workflow_failing (apps_env [])) ''orders'' \<noteq> Returned ()"
    by (simp add: example_defs)
  have mode: "falsy (argv_delete orders_argv)" "argv_f orders_argv = None"
    "falsy (argv_delete (orders_argv\<lparr>argv_no_workflow := True\<rparr>))"
    "argv_f (orders_argv\<lparr>argv_no_workflow := True\<rparr>) = None"
    "argv_no_workflow (orders_argv\<lparr>argv_no_workflow := True\<rparr>)"
    by (simp_all add: falsy_def example_defs)
  from scaffold_create_workflow_gate[OF mode(3,4), of "apps_env []" None] mode(5)
  have a: "\<forall>n. Call (GenerateCRUDWorkflow n)
       \<notin> set (events (snd (handler (apps_env []) (orders_argv\<lparr>argv_no_workflow := True\<rparr>)
                (fresh None))))"
    by blast
  from scaffold_create_workflow_gate[OF mode(1,2), of "workflow_failing (apps_env [])" None]
    in_tr fails
  have b: "\<forall>x y z. Call (CreateAppForTable x y z)
       \<notin> set (events (snd (handler (workflow_failing (apps_env [])) orders_argv (fresh None))))"
    by blast
  from a in_tr b show ?thesis by blast
qed

end
